theory Spec2Isabelle
  imports Complex_Main
begin

section \<open>Python values and errors\<close>

text \<open>
  The exceptions that the modelled code can raise. \<open>TorchError\<close> stands for an error raised
  inside torch or torchvision (its Python class depends on the library version, it is never
  an \<open>AttributeError\<close> or a \<open>KeyError\<close>); \<open>CvError\<close> for one raised inside OpenCV.
\<close>

datatype py_error =
  TypeError | AssertionError | AttributeError | KeyError | IndexError
  | ZeroDivisionError | TorchError | CvError

section \<open>Tensors\<close>

text \<open>
  A tensor (and a numpy array) is its shape and its elements in row-major order.
\<close>

record 'a tensor =
  shape :: "nat list"
  elems :: "'a list"

definition wf_tensor :: "'a tensor \<Rightarrow> bool" where
  "wf_tensor t \<longleftrightarrow> length (elems t) = prod_list (shape t)"

text \<open>An elementwise operation, such as a change of the element type.\<close>

definition map_tensor :: "('a \<Rightarrow> 'b) \<Rightarrow> 'a tensor \<Rightarrow> 'b tensor" where
  "map_tensor f t = \<lparr>shape = shape t, elems = map f (elems t)\<rparr>"

text \<open>\<open>Tensor.squeeze()\<close>: every axis of extent 1 is removed.\<close>

definition squeeze :: "'a tensor \<Rightarrow> 'a tensor" where
  "squeeze t = t\<lparr>shape := filter (\<lambda>d. d \<noteq> 1) (shape t)\<rparr>"

text \<open>
  \<open>nn.ConstantPad3d((0, 0, 0, 0, k, 0), 0)\<close>: \<open>F.pad\<close> with six padding entries refuses a
  tensor of fewer than three axes; otherwise it puts \<open>k\<close> zero-filled planes in front of the
  third-last axis.
\<close>

definition ConstantPad3d :: "nat \<Rightarrow> 'a::zero tensor \<Rightarrow> py_error + 'a tensor" where
  "ConstantPad3d k t =
     (let n = length (shape t) in
      if n < 3 then Inl TorchError
      else
        let pre = take (n - 3) (shape t);
            d = shape t ! (n - 3); w = shape t ! (n - 2); h = shape t ! (n - 1);
            blk = d * w * h
        in Inr \<lparr>shape = pre @ [d + k, w, h],
                elems = concat (map (\<lambda>i. replicate (k * w * h) 0 @ take blk (drop (i * blk) (elems t)))
                                    [0..<prod_list pre])\<rparr>)"

text \<open>\<open>Tensor.unsqueeze(1)\<close>, applied when the tensor has three axes.\<close>

definition handle_dims :: "'a tensor \<Rightarrow> 'a tensor" where
  "handle_dims t =
     (if length (shape t) = 3 then t\<lparr>shape := take 1 (shape t) @ [1] @ drop 1 (shape t)\<rparr> else t)"

section \<open>The offset step (draw\_grid.py, lines 50 to 62 and 127 to 136)\<close>

text \<open>
  \<open>assert offset >= 0 or offset is None\<close>: the comparison is evaluated first, and in
  Python 3 comparing \<open>None\<close> with an integer raises \<open>TypeError\<close>, so the second disjunct
  is never reached with \<open>offset = None\<close>.
\<close>

definition assert_offset :: "int option \<Rightarrow> py_error + unit" where
  "assert_offset off =
     (case off of
        None \<Rightarrow> Inl TypeError
      | Some k \<Rightarrow> if k \<ge> 0 then Inr () else Inl AssertionError)"

text \<open>
  \<open>if not offset is None: image = image.squeeze(); image = ConstantPad3d(...)(image)\<close>.
  The assertion has already excluded a negative offset here.
\<close>

definition pad_offset :: "int option \<Rightarrow> 'a::zero tensor \<Rightarrow> py_error + 'a tensor" where
  "pad_offset off im =
     (case off of
        None \<Rightarrow> Inr im
      | Some k \<Rightarrow> ConstantPad3d (nat k) (squeeze im))"

definition offset_step :: "int option \<Rightarrow> 'a::zero tensor \<Rightarrow> py_error + 'a tensor" where
  "offset_step off im =
     (case assert_offset off of
        Inl e \<Rightarrow> Inl e
      | Inr _ \<Rightarrow> pad_offset off im)"

section \<open>Column count (lines 69 to 70 and 143 to 144)\<close>

text \<open>
  \<open>np.int(np.ceil(np.sqrt(len(image))))\<close>: the least \<open>n\<close> whose square reaches the number
  of slices, found by search so that it can be evaluated. (The double-precision square
  root is exact enough for every slice count below \<open>2^52\<close>.)
\<close>

definition ceil_sqrt :: "nat \<Rightarrow> nat" where
  "ceil_sqrt d = (case find (\<lambda>n. d \<le> n * n) [0..<Suc d] of Some n \<Rightarrow> n | None \<Rightarrow> d)"

text \<open>\<open>len(image)\<close> is the extent of the first axis; a tensor without axes has no length.\<close>

definition auto_nrow :: "nat option \<Rightarrow> 'a tensor \<Rightarrow> py_error + nat" where
  "auto_nrow nr im =
     (case nr of
        Some n \<Rightarrow> Inr n
      | None \<Rightarrow> (case shape im of [] \<Rightarrow> Inl TypeError | d # _ \<Rightarrow> Inr (ceil_sqrt d)))"

section \<open>The crop step (lines 74 to 84 and 148 to 158)\<close>

record crop_spec =
  center :: "int list"
  csize :: "int list"

text \<open>\<open>[np.max([0, int(c - s // 2)]) for c, s in zip(center, size)]\<close>\<close>

definition lower_bound :: "crop_spec \<Rightarrow> int list" where
  "lower_bound cr = map (\<lambda>(c, s). max 0 (c - s div 2)) (zip (center cr) (csize cr))"

text \<open>
  \<open>[np.min([l + s, m]) for l, s, m in zip(lower_bound, size, im_shape[1:])]\<close>, where
  \<open>im_shape\<close> is the shape of the tensor at this point.
\<close>

definition upper_bound :: "crop_spec \<Rightarrow> nat list \<Rightarrow> int list" where
  "upper_bound cr im_shape =
     map (\<lambda>(l, s, m). min (l + s) (int m)) (zip (lower_bound cr) (zip (csize cr) (drop 1 im_shape)))"

text \<open>
  A slice \<open>a:b\<close> of an axis of extent \<open>n\<close>, as Python and torch read it: a negative index
  counts from the end, every index is clipped to the axis, and the slice is empty when
  the stop does not exceed the start. The result is the start and the number of entries.
\<close>

definition slice_index :: "nat \<Rightarrow> int \<Rightarrow> nat" where
  "slice_index n i = (if i < 0 then nat (max 0 (int n + i)) else min n (nat i))"

definition py_slice :: "nat \<Rightarrow> int \<Rightarrow> int \<Rightarrow> nat \<times> nat" where
  "py_slice n a b = (slice_index n a, slice_index n b - slice_index n a)"

text \<open>
  \<open>image[:, :, a0:b0, a1:b1]\<close> on a tensor of shape \<open>[n, c, w, h]\<close>: the first two axes are
  kept whole.
\<close>

definition slice_axes :: "'a tensor \<Rightarrow> int \<Rightarrow> int \<Rightarrow> int \<Rightarrow> int \<Rightarrow> 'a tensor" where
  "slice_axes t a0 b0 a1 b1 =
     (let n = shape t ! 0; c = shape t ! 1; w = shape t ! 2; h = shape t ! 3;
          (s0, l0) = py_slice w a0 b0; (s1, l1) = py_slice h a1 b1
      in \<lparr>shape = [n, c, l0, l1],
          elems = concat (map (\<lambda>i. concat (map (\<lambda>r. take l1 (drop ((i * w + r) * h + s1) (elems t)))
                                                [s0..<s0 + l0]))
                              [0..<n * c])\<rparr>)"

text \<open>
  Lines 76 to 84. Taking entries 0 and 1 of the lists of bounds fails when a list has
  fewer than two entries. The tensor has four axes here whenever the volume had three;
  a tensor of another rank ends in an error, here or in \<open>make_grid\<close>.
\<close>

definition crop_step :: "crop_spec option \<Rightarrow> 'a tensor \<Rightarrow> py_error + 'a tensor" where
  "crop_step cr im =
     (case cr of
        None \<Rightarrow> Inr im
      | Some c \<Rightarrow>
          let lb = lower_bound c; ub = upper_bound c (shape im) in
          if length lb < 2 \<or> length ub < 2 then Inl IndexError
          else if length (shape im) \<noteq> 4 then Inl IndexError
          else Inr (slice_axes im (lb ! 0) (ub ! 0) (lb ! 1) (ub ! 1)))"

section \<open>Configuration and the steps shared by both functions\<close>

text \<open>
  A colour argument: \<open>None\<close>, a \<open>QBrush\<close> with its red, green, blue and alpha values, or any
  other object (one without a \<open>color()\<close> method).
\<close>

datatype color_arg = NoColor | Brush nat nat nat nat | OtherObject

text \<open>
  The keyword arguments of \<open>draw_grid\<close> and \<open>draw_grid_contour\<close>. An argument that is left
  out has its default: \<open>None\<close> for crop, nrow, offset, cmap and color, 0 for background,
  1 for margins, 2 for thickness.
\<close>

record config =
  crop :: "crop_spec option"
  nrow :: "nat option"
  offset :: "int option"
  background :: rat
  margins :: nat
  cmap :: "string option"
  color :: color_arg
  thickness :: int

definition default_config :: config where
  "default_config =
     \<lparr>crop = None, nrow = None, offset = None, background = 0, margins = 1,
      cmap = None, color = NoColor, thickness = 2\<rparr>"

text \<open>
  Lines 50 to 87 of \<open>draw_grid\<close>, repeated as lines 127 to 161 of \<open>draw_grid_contour\<close>:
  the assertion, the offset, the channel axis, the column count and the crop. The second
  test of \<open>nrow is None\<close> (lines 86 and 160) can no longer succeed and is left out.
\<close>

definition prepare :: "config \<Rightarrow> 'a::zero tensor \<Rightarrow> py_error + ('a tensor \<times> nat)" where
  "prepare cfg im =
     (case offset_step (offset cfg) im of
        Inl e \<Rightarrow> Inl e
      | Inr im1 \<Rightarrow>
          let im2 = handle_dims im1 in
          (case auto_nrow (nrow cfg) im2 of
             Inl e \<Rightarrow> Inl e
           | Inr n \<Rightarrow>
               (case crop_step (crop cfg) im2 of
                  Inl e \<Rightarrow> Inl e
                | Inr im3 \<Rightarrow> Inr (im3, n))))"

section \<open>torchvision's make\_grid\<close>

text \<open>
  \<open>make_grid\<close> on a tensor of shape \<open>[n, c, h, w]\<close>, the only rank that \<open>prepare\<close> hands to
  it from a volume of three axes (another rank ends in an error of the library in both
  callers and is reported as \<open>TorchError\<close>).

  A batch of single-channel images is first copied three times along the channel axis.
\<close>

definition to_rgb :: "'a tensor \<Rightarrow> 'a tensor" where
  "to_rgb t =
     (if length (shape t) = 4 \<and> shape t ! 1 = 1 then
        let n = shape t ! 0; hw = shape t ! 2 * shape t ! 3 in
        \<lparr>shape = [n, 3, shape t ! 2, shape t ! 3],
         elems = concat (map (\<lambda>k. let img = take hw (drop (k * hw) (elems t)) in img @ img @ img)
                             [0..<n])\<rparr>
      else t)"

text \<open>
  \<open>normalize=True\<close> without a range: \<open>norm_ip(t, float(t.min()), float(t.max()))\<close>, that is
  \<open>img.clamp_(min, max); img.add_(-min).div_(max - min + 1e-5)\<close> over the whole batch. The
  minimum of a tensor without elements is an error. Intensities are rational numbers and
  \<open>norm_ip\<close> is the formula in exact arithmetic; the rounding of the single-precision
  operations is a parameter of \<open>norm_ip_float\<close> below. (This is the formula of torchvision
  up to 0.8, the versions that this code was written for; later versions bound the divisor
  from below by \<open>1e-5\<close> instead of adding it.)
\<close>

definition tensor_min :: "'a::linorder list \<Rightarrow> 'a" where
  "tensor_min xs = fold min (tl xs) (hd xs)"

definition tensor_max :: "'a::linorder list \<Rightarrow> 'a" where
  "tensor_max xs = fold max (tl xs) (hd xs)"

definition norm_ip :: "rat \<Rightarrow> rat \<Rightarrow> rat \<Rightarrow> rat" where
  "norm_ip lo hi v = (max lo (min hi v) - lo) / (hi - lo + 1 / 100000)"

definition norm_range :: "rat tensor \<Rightarrow> py_error + rat tensor" where
  "norm_range t =
     (if elems t = [] then Inl TorchError
      else Inr (t\<lparr>elems := map (norm_ip (tensor_min (elems t)) (tensor_max (elems t))) (elems t)\<rparr>))"

text \<open>
  The grid. A batch of one image is returned as it is, without margins. Otherwise
  \<open>xmaps = min(nrow, nmaps)\<close> columns and \<open>ymaps = ceil(nmaps / xmaps)\<close> rows of cells of
  \<open>height = h + padding\<close> by \<open>width = w + padding\<close> are laid out on a tensor filled with
  \<open>pad_value\<close>, and image \<open>k\<close> is copied into the cell of row \<open>k div xmaps\<close> and
  column \<open>k mod xmaps\<close>, below and right of the cell's margin.
\<close>

definition grid_at ::
  "'a tensor \<Rightarrow> 'a \<Rightarrow> nat \<Rightarrow> nat \<Rightarrow> nat \<Rightarrow> nat \<Rightarrow> nat \<Rightarrow> 'a" where
  "grid_at t pad_value padding xmaps ch r x =
     (let nmaps = shape t ! 0; c = shape t ! 1; h = shape t ! 2; w = shape t ! 3;
          height = h + padding; width = w + padding;
          k = (r div height) * xmaps + x div width
      in if padding \<le> r mod height \<and> padding \<le> x mod width \<and> x div width < xmaps \<and> k < nmaps
         then elems t ! (((k * c + ch) * h + (r mod height - padding)) * w + (x mod width - padding))
         else pad_value)"

definition tile :: "nat \<Rightarrow> nat \<Rightarrow> 'a \<Rightarrow> 'a tensor \<Rightarrow> py_error + 'a tensor" where
  "tile nr padding pad_value t =
     (if length (shape t) \<noteq> 4 then Inl TorchError
      else
        let nmaps = shape t ! 0; c = shape t ! 1; h = shape t ! 2; w = shape t ! 3 in
        if nmaps = 1 then Inr \<lparr>shape = [c, h, w], elems = elems t\<rparr>
        else
          let xmaps = min nr nmaps in
          if xmaps = 0 then Inl ZeroDivisionError
          else
            let ymaps = (nmaps + xmaps - 1) div xmaps;
                gh = (h + padding) * ymaps + padding;
                gw = (w + padding) * xmaps + padding
            in Inr \<lparr>shape = [c, gh, gw],
                    elems = concat (map (\<lambda>ch. concat (map (\<lambda>r. map (grid_at t pad_value padding xmaps ch r)
                                                                     [0..<gw])
                                                           [0..<gh]))
                                        [0..<c])\<rparr>)"

text \<open>\<open>make_grid(t, nrow, padding, normalize=False, pad_value)\<close>\<close>

definition make_grid :: "nat \<Rightarrow> nat \<Rightarrow> 'a \<Rightarrow> 'a tensor \<Rightarrow> py_error + 'a tensor" where
  "make_grid nr padding pad_value t = tile nr padding pad_value (to_rgb t)"

text \<open>\<open>make_grid(t, nrow, padding, normalize=True, pad_value)\<close>\<close>

definition make_grid_normalize :: "nat \<Rightarrow> nat \<Rightarrow> rat \<Rightarrow> rat tensor \<Rightarrow> py_error + rat tensor" where
  "make_grid_normalize nr padding pad_value t =
     (if length (shape t) \<noteq> 4 then Inl TorchError
      else case norm_range (to_rgb t) of
             Inl e \<Rightarrow> Inl e
           | Inr t' \<Rightarrow> tile nr padding pad_value t')"

section \<open>draw\_grid (lines 22 to 97)\<close>

text \<open>
  \<open>astype('uint8')\<close> on a floating-point value: the fraction is cut off towards zero and
  the integer is reduced modulo 256.
\<close>

definition astype_uint8 :: "rat \<Rightarrow> nat" where
  "astype_uint8 v = nat ((if 0 \<le> v then \<lfloor>v\<rfloor> else \<lceil>v\<rceil>) mod 256)"

text \<open>\<open>permute(1, 2, 0)\<close> of a tensor of shape \<open>[c, gh, gw]\<close>: the channel axis comes last.\<close>

definition permute_hwc :: "'a tensor \<Rightarrow> 'a tensor" where
  "permute_hwc g =
     (let c = shape g ! 0; gh = shape g ! 1; gw = shape g ! 2 in
      \<lparr>shape = [gh, gw, c],
       elems = concat (map (\<lambda>r. concat (map (\<lambda>x. map (\<lambda>ch. elems g ! ((ch * gh + r) * gw + x)) [0..<c])
                                              [0..<gw]))
                           [0..<gh])\<rparr>)"

text \<open>The colour map table of the module; the values are OpenCV's colour map identifiers.\<close>

datatype colormap_id =
  COLORMAP_PARULA | COLORMAP_AUTUMN | COLORMAP_BONE | COLORMAP_JET | COLORMAP_RAINBOW
  | COLORMAP_OCEAN | COLORMAP_SUMMER | COLORMAP_SPRING | COLORMAP_COOL | COLORMAP_HSV
  | COLORMAP_PINK | COLORMAP_HOT

definition colormaps :: "(string \<times> colormap_id option) list" where
  "colormaps =
     [(''Default'', None), (''Parula'', Some COLORMAP_PARULA), (''Autumn'', Some COLORMAP_AUTUMN),
      (''Bone'', Some COLORMAP_BONE), (''Jet'', Some COLORMAP_JET),
      (''Rainbow'', Some COLORMAP_RAINBOW), (''Ocean'', Some COLORMAP_OCEAN),
      (''Summer'', Some COLORMAP_SUMMER), (''Spring'', Some COLORMAP_SPRING),
      (''Cool'', Some COLORMAP_COOL), (''HSV'', Some COLORMAP_HSV), (''Pink'', Some COLORMAP_PINK),
      (''Hot'', Some COLORMAP_HOT)]"

text \<open>
  \<open>cv2.applyColorMap(im_grid[:, :, 0], colormaps[cmap])\<close>: the first channel of every pixel
  is looked up in the colour table of the map, which gives three bytes. The table itself
  belongs to OpenCV and is a parameter.
\<close>

type_synonym lookup_table = "colormap_id \<Rightarrow> nat \<Rightarrow> nat list"

definition applyColorMap :: "lookup_table \<Rightarrow> colormap_id \<Rightarrow> nat tensor \<Rightarrow> py_error + nat tensor" where
  "applyColorMap lut m g =
     (let gh = shape g ! 0; gw = shape g ! 1; c = shape g ! 2 in
      if c = 0 then Inl IndexError
      else Inr \<lparr>shape = [gh, gw, 3],
                elems = concat (map (\<lambda>i. lut m (elems g ! (i * c))) [0..<gh * gw])\<rparr>)"

definition colorize :: "lookup_table \<Rightarrow> string option \<Rightarrow> nat tensor \<Rightarrow> py_error + nat tensor" where
  "colorize lut cm g =
     (case cm of
        None \<Rightarrow> Inr g
      | Some name \<Rightarrow>
          if name = ''Default'' then Inr g
          else (case map_of colormaps name of
                  None \<Rightarrow> Inl KeyError
                | Some None \<Rightarrow> Inl KeyError
                | Some (Some m) \<Rightarrow> applyColorMap lut m g))"

text \<open>
  \<open>draw_grid\<close>, in exact arithmetic. The volume holds floating-point intensities. (An
  array of integers keeps an integer type through lines 53 to 57, and what the in-place
  division of \<open>make_grid\<close> does with it depends on the version of torch: it raises, or
  it divides in integers. That path is not modelled.)
\<close>

definition draw_grid :: "lookup_table \<Rightarrow> rat tensor \<Rightarrow> config \<Rightarrow> py_error + nat tensor" where
  "draw_grid lut im cfg =
     (case prepare cfg im of
        Inl e \<Rightarrow> Inl e
      | Inr (im', n) \<Rightarrow>
          (case make_grid_normalize n (margins cfg) (background cfg) im' of
             Inl e \<Rightarrow> Inl e
           | Inr g \<Rightarrow>
               colorize lut (cmap cfg)
                 (permute_hwc (map_tensor (\<lambda>v. astype_uint8 (v * 255)) g))))"

subsection \<open>The arithmetic of the normalization\<close>

text \<open>
  The tensor that \<open>make_grid\<close> normalizes holds single-precision numbers, and each
  operation on it rounds. The rounded operations are parameters of the model: \<open>fsub\<close> is
  \<open>img.add_(-min)\<close>, \<open>fden hi lo\<close> is the divisor \<open>max - min + 1e-5\<close> as the division
  receives it, \<open>fdiv\<close> is \<open>img.div_(d)\<close>, \<open>fscale\<close> is \<open>im_grid * 255.\<close>, and \<open>fpad\<close> is
  the fill value as an element of the grid. The clamp and the cast to bytes do not round.
\<close>

record arith =
  fsub :: "rat \<Rightarrow> rat \<Rightarrow> rat"
  fden :: "rat \<Rightarrow> rat \<Rightarrow> rat"
  fdiv :: "rat \<Rightarrow> rat \<Rightarrow> rat"
  fscale :: "rat \<Rightarrow> rat"
  fpad :: "rat \<Rightarrow> rat"

text \<open>
  What is required of the operations: a result within the relative error \<open>1e-4\<close> of the
  exact one whenever the exact result is 0 or has a magnitude between \<open>1e-30\<close> and
  \<open>1e30\<close> (so that it neither overflows nor underflows), and a positive divisor. Single
  precision meets this with room to spare, whatever its rounding mode, and so does exact
  arithmetic. Nothing is required of the fill value.
\<close>

definition near :: "rat \<Rightarrow> rat \<Rightarrow> bool" where
  "near y x \<longleftrightarrow> \<bar>y - x\<bar> \<le> \<bar>x\<bar> / 10000"

definition in_range :: "rat \<Rightarrow> bool" where
  "in_range x \<longleftrightarrow> x = 0 \<or> (1 / 10 ^ 30 \<le> \<bar>x\<bar> \<and> \<bar>x\<bar> \<le> 10 ^ 30)"

definition float_arith :: "arith \<Rightarrow> bool" where
  "float_arith ar \<longleftrightarrow>
     (\<forall>x y. in_range (x - y) \<longrightarrow> near (fsub ar x y) (x - y))
   \<and> (\<forall>hi lo. in_range (hi - lo + 1 / 100000) \<longrightarrow> near (fden ar hi lo) (hi - lo + 1 / 100000))
   \<and> (\<forall>hi lo. lo \<le> hi \<longrightarrow> 0 < fden ar hi lo)
   \<and> (\<forall>x d. d \<noteq> 0 \<longrightarrow> in_range (x / d) \<longrightarrow> near (fdiv ar x d) (x / d))
   \<and> (\<forall>x. in_range (x * 255) \<longrightarrow> near (fscale ar x) (x * 255))"

text \<open>
  The normalization, \<open>make_grid\<close> with \<open>normalize=True\<close> and \<open>draw_grid\<close> once more, with
  the operations of the arithmetic in the place of the exact ones.
\<close>

definition norm_ip_float :: "arith \<Rightarrow> rat \<Rightarrow> rat \<Rightarrow> rat \<Rightarrow> rat" where
  "norm_ip_float ar lo hi v = fdiv ar (fsub ar (max lo (min hi v)) lo) (fden ar hi lo)"

definition norm_range_float :: "arith \<Rightarrow> rat tensor \<Rightarrow> py_error + rat tensor" where
  "norm_range_float ar t =
     (if elems t = [] then Inl TorchError
      else Inr (t\<lparr>elems := map (norm_ip_float ar (tensor_min (elems t)) (tensor_max (elems t)))
                                (elems t)\<rparr>))"

definition make_grid_normalize_float ::
  "arith \<Rightarrow> nat \<Rightarrow> nat \<Rightarrow> rat \<Rightarrow> rat tensor \<Rightarrow> py_error + rat tensor" where
  "make_grid_normalize_float ar nr padding pad_value t =
     (if length (shape t) \<noteq> 4 then Inl TorchError
      else case norm_range_float ar (to_rgb t) of
             Inl e \<Rightarrow> Inl e
           | Inr t' \<Rightarrow> tile nr padding (fpad ar pad_value) t')"

definition draw_grid_float ::
  "arith \<Rightarrow> lookup_table \<Rightarrow> rat tensor \<Rightarrow> config \<Rightarrow> py_error + nat tensor" where
  "draw_grid_float ar lut im cfg =
     (case prepare cfg im of
        Inl e \<Rightarrow> Inl e
      | Inr (im', n) \<Rightarrow>
          (case make_grid_normalize_float ar n (margins cfg) (background cfg) im' of
             Inl e \<Rightarrow> Inl e
           | Inr g \<Rightarrow>
               colorize lut (cmap cfg)
                 (permute_hwc (map_tensor (\<lambda>v. astype_uint8 (fscale ar v)) g))))"

text \<open>
  Two arithmetics: the exact one, and one in which a range of 256 or more absorbs the
  \<open>1e-5\<close> that is added to it, as it does in single precision (from 256 on, neighbouring
  numbers are more than \<open>3e-5\<close> apart); its other operations are exact.
\<close>

definition exact_arith :: arith where
  "exact_arith =
     \<lparr>fsub = (\<lambda>x y. x - y), fden = (\<lambda>hi lo. hi - lo + 1 / 100000), fdiv = (\<lambda>x d. x / d),
      fscale = (\<lambda>x. x * 255), fpad = (\<lambda>x. x)\<rparr>"

definition absorbing_arith :: arith where
  "absorbing_arith =
     exact_arith\<lparr>fden := (\<lambda>hi lo. if 256 \<le> hi - lo then hi - lo else hi - lo + 1 / 100000)\<rparr>"

section \<open>draw\_grid\_contour (lines 99 to 176)\<close>

text \<open>
  The two OpenCV routines are parameters. \<open>findContours\<close> returns the contours of the mask
  grid or raises (the unpacking of its result into three names is part of the call).
  \<open>drawContours\<close> draws on the array it is given and returns it; when it raises, it does
  so while it checks its arguments, before anything is drawn.
\<close>

record 'c cv2 =
  findContours :: "nat tensor \<Rightarrow> py_error + 'c"
  drawContours :: "nat tensor \<Rightarrow> 'c \<Rightarrow> nat list \<Rightarrow> int \<Rightarrow> py_error + nat tensor"

text \<open>\<open>color.color().getRgb()[:3]\<close>: only a brush has the method \<open>color\<close>.\<close>

definition color_rgb :: "color_arg \<Rightarrow> py_error + nat list" where
  "color_rgb col = (case col of Brush r g b a \<Rightarrow> Inr [r, g, b] | _ \<Rightarrow> Inl AttributeError)"

text \<open>\<open>seg_grid[0]\<close>: the first channel of a grid of shape \<open>[c, gh, gw]\<close>.\<close>

definition first_channel :: "'a tensor \<Rightarrow> py_error + 'a tensor" where
  "first_channel g =
     (let c = shape g ! 0; gh = shape g ! 1; gw = shape g ! 2 in
      if c = 0 then Inl IndexError
      else Inr \<lparr>shape = [gh, gw], elems = take (gh * gw) (elems g)\<rparr>)"

text \<open>
  The mask grid that is handed to \<open>findContours\<close> (lines 127 to 165): the mask is cast to
  unsigned bytes, prepared as the volume is, and tiled without normalization, with the
  configured background as the fill value of the margins. (An array is cast at line 131
  and a tensor at line 165; the cast of the elements commutes with the steps in between,
  so both give this grid.) The fill value is cast as an element is, which is what the code
  does with a background from 0 to 255; beyond that range torch may refuse the fill value,
  which the model does not follow.
\<close>

definition seg_grid :: "rat tensor \<Rightarrow> config \<Rightarrow> py_error + nat tensor" where
  "seg_grid seg cfg =
     (case prepare cfg (map_tensor astype_uint8 seg) of
        Inl e \<Rightarrow> Inl e
      | Inr (seg', n) \<Rightarrow>
          (case make_grid n (margins cfg) (astype_uint8 (background cfg)) seg' of
             Inl e \<Rightarrow> Inl e
           | Inr g \<Rightarrow> first_channel g))"

text \<open>
  The result is the image that is returned together with the exceptions that the
  \<open>except\<close> branch has printed on the standard output; \<open>Inl\<close> is an exception that
  leaves the function.
\<close>

definition draw_grid_contour ::
  "'c cv2 \<Rightarrow> nat tensor \<Rightarrow> rat tensor \<Rightarrow> config \<Rightarrow> py_error + (nat tensor \<times> py_error list)" where
  "draw_grid_contour cv im_grid seg cfg =
     (case seg_grid seg cfg of
        Inl e \<Rightarrow> Inl e
      | Inr sg \<Rightarrow>
          (case findContours cv sg of
             Inl e \<Rightarrow> Inl e
           | Inr contours \<Rightarrow>
               (case color_rgb (color cfg) of
                  Inl e \<Rightarrow> Inr (im_grid, [e])
                | Inr rgb \<Rightarrow>
                    (case drawContours cv im_grid contours rgb (thickness cfg) of
                       Inl e \<Rightarrow> Inr (im_grid, [e])
                     | Inr im' \<Rightarrow> Inr (im', [])))))"



section \<open>The drawing thread (draw\_grid\_wrapper.py)\<close>

text \<open>
  What a configuration can hold in the place of an array: \<open>None\<close>, some other object
  without the methods of a tensor, or an array.
\<close>

datatype 'a pyobj = PyNone | PyObject | Array "'a tensor"

text \<open>
  \<open>draw_grid\<close> and \<open>draw_grid_contour\<close> on such an argument. After the assertion the
  offset is not \<open>None\<close>, so the first use of the argument is the call of its method
  \<open>squeeze\<close>, which only an array has.
\<close>

definition draw_grid_obj :: "lookup_table \<Rightarrow> rat pyobj \<Rightarrow> config \<Rightarrow> py_error + nat tensor" where
  "draw_grid_obj lut obj cfg =
     (case obj of
        Array im \<Rightarrow> draw_grid lut im cfg
      | _ \<Rightarrow> (case assert_offset (offset cfg) of Inl e \<Rightarrow> Inl e | Inr _ \<Rightarrow> Inl AttributeError))"

definition draw_grid_contour_obj ::
  "'c cv2 \<Rightarrow> nat tensor \<Rightarrow> rat pyobj \<Rightarrow> config \<Rightarrow> py_error + (nat tensor \<times> py_error list)" where
  "draw_grid_contour_obj cv im_grid obj cfg =
     (case obj of
        Array seg \<Rightarrow> draw_grid_contour cv im_grid seg cfg
      | _ \<Rightarrow> (case assert_offset (offset cfg) of Inl e \<Rightarrow> Inl e | Inr _ \<Rightarrow> Inl AttributeError))"

text \<open>
  The configuration dictionary: the entries \<open>target_im\<close>, \<open>segment\<close> and \<open>segment_color\<close>
  may be absent; the remaining entries are the keyword arguments of the two functions
  (an absent one has the default of the function).
\<close>

record draw_config =
  target_im :: "rat pyobj option"
  segment :: "rat pyobj list option"
  segment_color :: "color_arg list option"
  kwargs :: config

text \<open>
  The thread object: its configuration, its result, the messages emitted through
  \<open>display_msg\<close> and what has been printed.
\<close>

record draw_grid_wrapper =
  wconfig :: "draw_config option"
  wresult :: "nat tensor option"
  emitted :: "string list"
  printed :: "py_error list"

definition wrapper_init :: draw_grid_wrapper where
  "wrapper_init = \<lparr>wconfig = None, wresult = None, emitted = [], printed = []\<rparr>"

definition set_config :: "draw_config \<Rightarrow> draw_grid_wrapper \<Rightarrow> draw_grid_wrapper" where
  "set_config d w = w\<lparr>wconfig := Some d\<rparr>"

text \<open>
  The loop over \<open>zip(segment, segment_color)\<close>: each mask is drawn on the result of the
  step before. The first exception ends the loop and keeps the result assigned last.
\<close>

fun overlay_loop ::
  "'c cv2 \<Rightarrow> config \<Rightarrow> (rat pyobj \<times> color_arg) list \<Rightarrow> nat tensor \<Rightarrow> py_error list
     \<Rightarrow> py_error option \<times> nat tensor \<times> py_error list" where
  "overlay_loop cv kw [] res out = (None, res, out)"
| "overlay_loop cv kw ((ss, col) # rest) res out =
     (case draw_grid_contour_obj cv res ss (kw\<lparr>color := col\<rparr>) of
        Inl e \<Rightarrow> (Some e, res, out)
      | Inr (res', pr) \<Rightarrow> overlay_loop cv kw rest res' (out @ pr))"

text \<open>\<open>except AttributeError\<close>: only this exception is turned into the message.\<close>

definition handle_error :: "py_error \<Rightarrow> draw_grid_wrapper \<Rightarrow> py_error option \<times> draw_grid_wrapper" where
  "handle_error e w =
     (if e = AttributeError then (None, w\<lparr>emitted := emitted w @ [''Wrong drawing configuration'']\<rparr>)
      else (Some e, w))"

text \<open>
  \<open>run\<close>: the first component is the exception that leaves the method, if any. Popping
  \<open>target_im\<close> removes the entry from the configuration.
\<close>

definition run ::
  "lookup_table \<Rightarrow> 'c cv2 \<Rightarrow> draw_grid_wrapper \<Rightarrow> py_error option \<times> draw_grid_wrapper" where
  "run lut cv w =
     (case wconfig w of
        None \<Rightarrow> (Some AssertionError, w)
      | Some d \<Rightarrow>
          (case target_im d of
             None \<Rightarrow> handle_error KeyError w
           | Some im \<Rightarrow>
               let w1 = w\<lparr>wconfig := Some (d\<lparr>target_im := None\<rparr>)\<rparr> in
               (case draw_grid_obj lut im (kwargs d) of
                  Inl e \<Rightarrow> handle_error e w1
                | Inr res \<Rightarrow>
                    let w2 = w1\<lparr>wresult := Some res\<rparr> in
                    (case (segment d, segment_color d) of
                       (Some segs, Some cols) \<Rightarrow>
                         (case overlay_loop cv (kwargs d) (zip segs cols) res (printed w2) of
                            (None, res', out) \<Rightarrow> (None, w2\<lparr>wresult := Some res', printed := out\<rparr>)
                          | (Some e, res', out) \<Rightarrow>
                              handle_error e (w2\<lparr>wresult := Some res', printed := out\<rparr>))
                     | _ \<Rightarrow> (None, w2)))))"

section \<open>The reader thread (ngv\_io\_wrapper.py)\<close>

text \<open>
  \<open>ngv_io_reader_wrapper\<close> holds a reader or \<open>None\<close>. The reader class lives in another
  module: its keyed lookup is the parameter \<open>reader_getitem\<close>, which returns a value
  (\<open>None\<close> included) or raises.
\<close>

record 'r ngv_io_reader_wrapper =
  reader :: "'r option"

definition reader_wrapper_init :: "'r ngv_io_reader_wrapper" where
  "reader_wrapper_init = \<lparr>reader = None\<rparr>"

definition configure_reader :: "'r \<Rightarrow> 'r ngv_io_reader_wrapper \<Rightarrow> 'r ngv_io_reader_wrapper" where
  "configure_reader r w = w\<lparr>reader := Some r\<rparr>"

text \<open>
  \<open>__getitem__\<close>: the method has no \<open>else\<close> branch, so without a reader it falls off its
  end and returns \<open>None\<close>.
\<close>

definition getitem ::
  "('r \<Rightarrow> 'k \<Rightarrow> py_error + 'v option) \<Rightarrow> 'r ngv_io_reader_wrapper \<Rightarrow> 'k \<Rightarrow> py_error + 'v option" where
  "getitem reader_getitem w item =
     (case reader w of
        Some r \<Rightarrow> reader_getitem r item
      | None \<Rightarrow> Inr None)"

section \<open>Inputs used in the examples\<close>

text \<open>A colour table for the evaluations below, none of which applies a colour map.\<close>

definition gray_table :: lookup_table where
  "gray_table m v = [v, v, v]"

text \<open>The volume with \<open>k\<close> zero-filled slices put in front of the slices of \<open>v\<close>.\<close>

definition prepend_zero_slices :: "nat \<Rightarrow> 'a::zero tensor \<Rightarrow> 'a tensor" where
  "prepend_zero_slices k v =
     \<lparr>shape = [shape v ! 0 + k, shape v ! 1, shape v ! 2],
      elems = replicate (k * (shape v ! 1) * (shape v ! 2)) 0 @ elems v\<rparr>"

text \<open>
  Three behaviours of the OpenCV routines: contour extraction raises; no contour is found
  and drawing leaves the image as it is; contours are found but drawing raises.
\<close>

definition cv_extraction_fails :: "unit cv2" where
  "cv_extraction_fails =
     \<lparr>findContours = (\<lambda>g. Inl CvError), drawContours = (\<lambda>im cs rgb t. Inr im)\<rparr>"

definition cv_no_contours :: "unit cv2" where
  "cv_no_contours =
     \<lparr>findContours = (\<lambda>g. Inr ()), drawContours = (\<lambda>im cs rgb t. Inr im)\<rparr>"

definition cv_drawing_fails :: "unit cv2" where
  "cv_drawing_fails =
     \<lparr>findContours = (\<lambda>g. Inr ()), drawContours = (\<lambda>im cs rgb t. Inl CvError)\<rparr>"

text \<open>
  The depth count after the offset slices are put in front, and the number of columns and
  rows that \<open>make_grid\<close> lays out for \<open>d\<close> slices: \<open>xmaps = min(nrow, d)\<close> columns, where
  \<open>nrow\<close> is the configured count or \<open>ceil(sqrt(d))\<close>, which never exceeds \<open>d\<close>.
\<close>

definition effective_depth :: "config \<Rightarrow> 'a tensor \<Rightarrow> nat" where
  "effective_depth cfg v = shape v ! 0 + (case offset cfg of None \<Rightarrow> 0 | Some k \<Rightarrow> nat k)"

definition grid_columns :: "config \<Rightarrow> nat \<Rightarrow> nat" where
  "grid_columns cfg d = (case nrow cfg of None \<Rightarrow> ceil_sqrt d | Some n \<Rightarrow> min n d)"

definition grid_rows :: "config \<Rightarrow> nat \<Rightarrow> nat" where
  "grid_rows cfg d = (d + grid_columns cfg d - 1) div grid_columns cfg d"

definition volume_4x2x2 :: "rat tensor" where
  "volume_4x2x2 = \<lparr>shape = [4, 2, 2], elems = map of_nat [0..<16]\<rparr>"

text \<open>
  A mask grid without foreground, and the behaviour of OpenCV that the overlay of an empty
  mask relies on: whatever \<open>findContours\<close> extracts from a grid without foreground,
  drawing it changes nothing (OpenCV extracts an empty list, and \<open>drawContours\<close> returns
  at once for an empty list).
\<close>

definition blank :: "nat tensor \<Rightarrow> bool" where
  "blank g \<longleftrightarrow> (\<forall>v \<in> set (elems g). v = 0)"

definition draws_nothing_on_blank :: "'c cv2 \<Rightarrow> bool" where
  "draws_nothing_on_blank cv \<longleftrightarrow>
     (\<forall>g cs im rgb t im'. blank g \<longrightarrow> findContours cv g = Inr cs
        \<longrightarrow> drawContours cv im cs rgb t = Inr im' \<longrightarrow> im' = im)"

text \<open>
  A behaviour of the routines in which every foreground pixel of the mask grid is reported
  and painted in the given colour. It stands in for OpenCV, which reports the outer
  boundaries of the foreground regions and strokes them.
\<close>

definition paint :: "nat tensor \<Rightarrow> nat list \<Rightarrow> nat list \<Rightarrow> nat tensor" where
  "paint im cs rgb =
     im\<lparr>elems := concat (map (\<lambda>i. if i \<in> set cs then rgb else take 3 (drop (3 * i) (elems im)))
                             [0..<length (elems im) div 3])\<rparr>"

definition cv_marks_foreground :: "nat list cv2" where
  "cv_marks_foreground =
     \<lparr>findContours = (\<lambda>g. Inr (filter (\<lambda>i. elems g ! i \<noteq> 0) [0..<length (elems g)])),
      drawContours = (\<lambda>im cs rgb t. Inr (paint im cs rgb))\<rparr>"

text \<open>
  The byte that \<open>draw_grid\<close> computes for a voxel of intensity \<open>x\<close> of the volume \<open>v\<close>:
  normalized with the minimum and maximum of the volume, scaled by 255 and cast. And the
  byte of the margins and of the cells that are left over.
\<close>

definition voxel_byte :: "arith \<Rightarrow> rat tensor \<Rightarrow> rat \<Rightarrow> nat" where
  "voxel_byte ar v x =
     astype_uint8 (fscale ar (norm_ip_float ar (tensor_min (elems v)) (tensor_max (elems v)) x))"

definition margin_byte :: "arith \<Rightarrow> config \<Rightarrow> nat" where
  "margin_byte ar cfg = astype_uint8 (fscale ar (fpad ar (background cfg)))"


section \<open>Shapes along the pipeline\<close>

lemma length3E:
  assumes "length xs = 3"
  obtains a b c where "xs = [a, b, c]"
  using assms by (cases xs; cases "tl xs"; cases "tl (tl xs)") auto

lemma length_filter_same: "length (filter P xs) \<ge> length xs \<Longrightarrow> filter P xs = xs"
  by (metis filter_id_conv le_antisym length_filter_le length_filter_less linorder_not_le)

lemma ConstantPad3d_rank3:
  "shape t = [d, w, h] \<Longrightarrow>
   ConstantPad3d k t = Inr \<lparr>shape = [d + k, w, h],
                            elems = replicate (k * w * h) 0 @ take (d * w * h) (elems t)\<rparr>"
  by (simp add: ConstantPad3d_def)

lemma ConstantPad3d_low_rank: "length (shape t) < 3 \<Longrightarrow> ConstantPad3d k t = Inl TorchError"
  by (simp add: ConstantPad3d_def)

lemma pad_offset_rank3:
  assumes "shape V = [Z, W, H]" and "pad_offset (Some k) V = Inr t"
  shows "t = \<lparr>shape = [Z + nat k, W, H],
              elems = replicate (nat k * W * H) 0 @ take (Z * W * H) (elems V)\<rparr>"
    and "Z \<noteq> 1" and "W \<noteq> 1" and "H \<noteq> 1"
proof -
  have len: "length (shape (squeeze V)) \<ge> 3"
  proof (rule ccontr)
    assume "\<not> ?thesis"
    then have "ConstantPad3d (nat k) (squeeze V) = Inl TorchError"
      by (simp add: ConstantPad3d_low_rank)
    with assms(2) show False by (simp add: pad_offset_def)
  qed
  then have same: "filter (\<lambda>d. d \<noteq> 1) (shape V) = shape V"
    using assms(1) by (intro length_filter_same) (simp add: squeeze_def)
  then show "Z \<noteq> 1" "W \<noteq> 1" "H \<noteq> 1"
    using assms(1) by (auto split: if_splits)
  from same have "shape (squeeze V) = [Z, W, H]" "elems (squeeze V) = elems V"
    using assms(1) by (simp_all add: squeeze_def)
  then have "ConstantPad3d (nat k) (squeeze V) = Inr \<lparr>shape = [Z + nat k, W, H],
              elems = replicate (nat k * W * H) 0 @ take (Z * W * H) (elems V)\<rparr>"
    by (simp add: ConstantPad3d_rank3)
  with assms(2) show "t = \<lparr>shape = [Z + nat k, W, H],
              elems = replicate (nat k * W * H) 0 @ take (Z * W * H) (elems V)\<rparr>"
    by (simp add: pad_offset_def)
qed

lemma offset_step_Inr:
  assumes "offset_step off V = Inr t"
  shows "\<exists>k. off = Some k \<and> 0 \<le> k \<and> pad_offset (Some k) V = Inr t"
proof (cases off)
  case None
  with assms show ?thesis by (simp add: offset_step_def assert_offset_def)
next
  case (Some k)
  with assms show ?thesis
    by (cases "0 \<le> k") (simp_all add: offset_step_def assert_offset_def)
qed

lemma slice_index_le: "slice_index n i \<le> n"
proof (cases "i < 0")
  case True
  then have "max 0 (int n + i) \<le> int n" by simp
  then show ?thesis using True by (simp add: slice_index_def)
next
  case False
  then show ?thesis by (simp add: slice_index_def)
qed

lemma py_slice_bounds:
  assumes "py_slice n a b = (s, l)"
  shows "s + l \<le> n"
proof -
  have "s = slice_index n a" "l = slice_index n b - slice_index n a"
    using assms by (auto simp add: py_slice_def)
  then show ?thesis
    using slice_index_le[of n a] slice_index_le[of n b] by linarith
qed

lemma crop_step_shape:
  assumes "crop_step cr t = Inr t'" and "shape t = [n, c, w, h]"
  shows "\<exists>w' h'. shape t' = [n, c, w', h'] \<and> w' \<le> w \<and> h' \<le> h"
proof (cases cr)
  case None
  with assms show ?thesis by (simp add: crop_step_def)
next
  case (Some a)
  with assms show ?thesis
    by (auto simp add: crop_step_def Let_def slice_axes_def split: if_splits prod.splits
        dest!: py_slice_bounds)
qed

lemma handle_dims_rank3: "shape t = [d, w, h] \<Longrightarrow> handle_dims t = t\<lparr>shape := [d, 1, w, h]\<rparr>"
  by (simp add: handle_dims_def)

lemma prepare_rank3:
  assumes "shape V = [Z, W, H]" and "prepare cfg V = Inr (t, n)"
  shows "\<exists>k w' h'. offset cfg = Some k \<and> 0 \<le> k
    \<and> shape t = [Z + nat k, 1, w', h'] \<and> w' \<le> W \<and> h' \<le> H
    \<and> n = (case nrow cfg of Some n' \<Rightarrow> n' | None \<Rightarrow> ceil_sqrt (Z + nat k))
    \<and> Z \<noteq> 1 \<and> W \<noteq> 1 \<and> H \<noteq> 1"
proof -
  from assms(2) obtain t1 where t1: "offset_step (offset cfg) V = Inr t1"
    and rest: "(case auto_nrow (nrow cfg) (handle_dims t1) of Inl e \<Rightarrow> Inl e
                | Inr n \<Rightarrow> (case crop_step (crop cfg) (handle_dims t1) of Inl e \<Rightarrow> Inl e
                             | Inr im3 \<Rightarrow> Inr (im3, n))) = Inr (t, n)"
    by (auto simp add: prepare_def Let_def split: sum.splits)
  from t1 obtain k where k: "offset cfg = Some k" "0 \<le> k" "pad_offset (Some k) V = Inr t1"
    using offset_step_Inr by blast
  from pad_offset_rank3[OF assms(1) k(3)]
  have t1_eq: "t1 = \<lparr>shape = [Z + nat k, W, H],
              elems = replicate (nat k * W * H) 0 @ take (Z * W * H) (elems V)\<rparr>"
    and ne: "Z \<noteq> 1" "W \<noteq> 1" "H \<noteq> 1" by simp_all
  have sh2: "shape (handle_dims t1) = [Z + nat k, 1, W, H]"
    by (simp add: t1_eq handle_dims_def)
  from rest have n: "auto_nrow (nrow cfg) (handle_dims t1) = Inr n"
    and cr: "crop_step (crop cfg) (handle_dims t1) = Inr t"
    by (auto split: sum.splits)
  from n sh2 have n_eq: "n = (case nrow cfg of Some n' \<Rightarrow> n' | None \<Rightarrow> ceil_sqrt (Z + nat k))"
    by (auto simp add: auto_nrow_def split: option.splits)
  from crop_step_shape[OF cr sh2] obtain w' h' where
    "shape t = [Z + nat k, 1, w', h']" "w' \<le> W" "h' \<le> H" by blast
  with k(1,2) n_eq ne show ?thesis by blast
qed

lemma to_rgb_shape: "shape t = [n, 1, h, w] \<Longrightarrow> shape (to_rgb t) = [n, 3, h, w]"
  by (simp add: to_rgb_def Let_def)

lemma tile_shape:
  assumes "tile nr m pad t = Inr g" and "shape t = [n, c, h, w]" and "n \<noteq> 1"
  shows "shape g = [c, (h + m) * ((n + min nr n - 1) div min nr n) + m, (w + m) * min nr n + m]"
    and "min nr n \<noteq> 0"
  using assms by (auto simp add: tile_def Let_def split: if_splits)

lemma make_grid_normalize_shape:
  assumes "make_grid_normalize nr m pad t = Inr g" and "shape t = [n, 1, h, w]" and "n \<noteq> 1"
  shows "shape g = [3, (h + m) * ((n + min nr n - 1) div min nr n) + m, (w + m) * min nr n + m]"
    and "min nr n \<noteq> 0"
proof -
  from assms(1,2) obtain t' where t': "norm_range (to_rgb t) = Inr t'" and g: "tile nr m pad t' = Inr g"
    by (auto simp add: make_grid_normalize_def split: sum.splits)
  from t' have "shape t' = shape (to_rgb t)"
    by (auto simp add: norm_range_def split: if_splits)
  then have "shape t' = [n, 3, h, w]" using assms(2) by (simp add: to_rgb_shape)
  from tile_shape[OF g this assms(3)]
  show "shape g = [3, (h + m) * ((n + min nr n - 1) div min nr n) + m, (w + m) * min nr n + m]"
    and "min nr n \<noteq> 0" by simp_all
qed

lemma colorize_shape:
  assumes "colorize lut cm g = Inr out" and "shape g = [gh, gw, 3]"
  shows "shape out = [gh, gw, 3]"
  using assms
  by (auto simp add: colorize_def applyColorMap_def Let_def split: option.splits if_splits)

lemma permute_hwc_shape: "shape g = [c, gh, gw] \<Longrightarrow> shape (permute_hwc g) = [gh, gw, c]"
  by (simp add: permute_hwc_def)

lemma ceil_sqrt_spec:
  "d \<le> ceil_sqrt d * ceil_sqrt d \<and> (\<forall>m < ceil_sqrt d. m * m < d) \<and> ceil_sqrt d \<le> d"
proof -
  have "d \<in> set [0..<Suc d]" "d \<le> d * d" by (simp_all del: upt_Suc)
  then have "find (\<lambda>n. d \<le> n * n) [0..<Suc d] \<noteq> None"
    unfolding find_None_iff by blast
  then obtain n where n: "find (\<lambda>n. d \<le> n * n) [0..<Suc d] = Some n" by blast
  then obtain i where i: "i < length [0..<Suc d]" "d \<le> [0..<Suc d] ! i * [0..<Suc d] ! i"
    "n = [0..<Suc d] ! i" "\<forall>j<i. \<not> d \<le> [0..<Suc d] ! j * [0..<Suc d] ! j"
    unfolding find_Some_iff by blast
  from i(1) have ilt: "i < Suc d" by (simp del: upt_Suc)
  then have ni: "n = i" using i(3) by (simp del: upt_Suc)
  have "\<forall>m<n. m * m < d"
  proof (intro allI impI)
    fix m assume "m < n"
    then have "m < i" "m < Suc d" using ni ilt by simp_all
    then have "\<not> d \<le> [0..<Suc d] ! m * [0..<Suc d] ! m" using i(4) by blast
    then show "m * m < d" using \<open>m < Suc d\<close> by (simp del: upt_Suc)
  qed
  moreover have "d \<le> n * n" using i(2) ni ilt by (simp del: upt_Suc)
  moreover have "n \<le> d" using ni ilt by simp
  ultimately show ?thesis using n by (simp add: ceil_sqrt_def)
qed

lemma ceil_sqrt_real: "ceil_sqrt d = nat \<lceil>sqrt (real d)\<rceil>"
proof (cases "ceil_sqrt d = 0")
  case True
  then have "d = 0" using ceil_sqrt_spec[of d] by simp
  with True show ?thesis by simp
next
  case False
  define n where "n = ceil_sqrt d"
  then obtain m where m: "n = Suc m" using False by (metis not0_implies_Suc)
  have up: "d \<le> n * n" and low: "m * m < d"
    using ceil_sqrt_spec[of d] m by (auto simp add: n_def)
  have "sqrt (real d) \<le> real n"
    using up by (metis of_nat_le_iff of_nat_mult real_le_lsqrt of_nat_0_le_iff power2_eq_square)
  moreover have "real m < sqrt (real d)"
    using low by (metis of_nat_less_iff of_nat_mult real_less_rsqrt power2_eq_square)
  ultimately have "\<lceil>sqrt (real d)\<rceil> = int n"
    using m by (intro ceiling_unique) auto
  then show ?thesis by (simp add: n_def)
qed

section \<open>Well-formed tensors and where the elements come from\<close>

lemma idx2_bound: "a < n \<Longrightarrow> b < m \<Longrightarrow> a * m + b < n * (m::nat)"
proof -
  assume a: "a < n" and b: "b < m"
  have "a * m + b < a * m + m" using b by simp
  also have "\<dots> = Suc a * m" by simp
  also have "\<dots> \<le> n * m" using a by (intro mult_le_mono1) simp
  finally show ?thesis .
qed

lemma idx4_bound:
  assumes "k < n" and "ch < c" and "i < h" and "j < w"
  shows "((k * c + ch) * h + i) * w + j < n * c * h * (w::nat)"
proof -
  have "k * c + ch < n * c" using assms(1,2) by (rule idx2_bound)
  then have "(k * c + ch) * h + i < n * c * h" using assms(3) by (rule idx2_bound)
  then show ?thesis using assms(4) by (rule idx2_bound)
qed

lemma length_concat_map_const:
  "(\<And>x. x \<in> set xs \<Longrightarrow> length (f x) = c) \<Longrightarrow> length (concat (map f xs)) = length xs * c"
  by (induction xs) simp_all

lemma prod_list_filter_ne1: "prod_list (filter (\<lambda>d. d \<noteq> 1) xs) = prod_list (xs :: nat list)"
  by (induction xs) simp_all

lemma wf_squeeze: "wf_tensor t \<Longrightarrow> wf_tensor (squeeze t)"
  using prod_list_filter_ne1[of "shape t"] by (simp add: wf_tensor_def squeeze_def)

lemma pad_offset_wf:
  assumes "shape V = [Z, W, H]" and "wf_tensor V" and "pad_offset (Some k) V = Inr t"
  shows "wf_tensor t" and "set (elems t) \<subseteq> insert 0 (set (elems V))"
    and "k = 0 \<Longrightarrow> elems t = elems V"
proof -
  from pad_offset_rank3(1)[OF assms(1,3)]
  have t: "t = \<lparr>shape = [Z + nat k, W, H],
              elems = replicate (nat k * W * H) 0 @ take (Z * W * H) (elems V)\<rparr>" .
  have len: "length (elems V) = Z * W * H"
    using assms(1,2) by (simp add: wf_tensor_def)
  show "wf_tensor t" by (simp add: t wf_tensor_def len add_mult_distrib)
  show "set (elems t) \<subseteq> insert 0 (set (elems V))"
    using set_take_subset[of "Z * W * H" "elems V"] by (auto simp add: t)
  show "k = 0 \<Longrightarrow> elems t = elems V" by (simp add: t len)
qed

lemma slice_axes_wf:
  assumes "shape t = [n, c, w, h]" and "wf_tensor t"
  shows "wf_tensor (slice_axes t a0 b0 a1 b1)"
proof -
  obtain s0 l0 where p0: "py_slice w a0 b0 = (s0, l0)" by (cases "py_slice w a0 b0")
  obtain s1 l1 where p1: "py_slice h a1 b1 = (s1, l1)" by (cases "py_slice h a1 b1")
  have b0: "s0 + l0 \<le> w" and b1: "s1 + l1 \<le> h"
    using p0 p1 by (auto dest: py_slice_bounds)
  have len: "length (elems t) = n * c * w * h"
    using assms by (simp add: wf_tensor_def)
  have row: "length (take l1 (drop ((i * w + r) * h + s1) (elems t))) = l1"
    if "i < n * c" and "r < s0 + l0" for i r
  proof -
    have "r < w" using that(2) b0 by simp
    then have "i * w + r < n * c * w" using that(1) by (intro idx2_bound)
    then have "Suc (i * w + r) * h \<le> n * c * w * h" by (intro mult_le_mono1) simp
    then have "(i * w + r) * h + h \<le> length (elems t)" by (simp add: len)
    then have "(i * w + r) * h + s1 + l1 \<le> length (elems t)" using b1 by linarith
    then show ?thesis by simp
  qed
  have inner: "length (concat (map (\<lambda>r. take l1 (drop ((i * w + r) * h + s1) (elems t)))
                                     [s0..<s0 + l0])) = l0 * l1"
    if "i < n * c" for i
  proof -
    have "length (concat (map (\<lambda>r. take l1 (drop ((i * w + r) * h + s1) (elems t)))
                                     [s0..<s0 + l0])) = length [s0..<s0 + l0] * l1"
      by (rule length_concat_map_const) (use that row in auto)
    then show ?thesis by simp
  qed
  have "length (concat (map (\<lambda>i. concat (map (\<lambda>r. take l1 (drop ((i * w + r) * h + s1) (elems t)))
                                                [s0..<s0 + l0]))
                              [0..<n * c])) = length [0..<n * c] * (l0 * l1)"
    by (rule length_concat_map_const) (use inner in auto)
  then show ?thesis
    by (simp add: slice_axes_def assms(1) p0 p1 wf_tensor_def mult.assoc)
qed

lemma slice_axes_elems: "set (elems (slice_axes t a0 b0 a1 b1)) \<subseteq> set (elems t)"
proof -
  have "set (take l (drop m (elems t))) \<subseteq> set (elems t)" for l m
    by (meson set_drop_subset set_take_subset subset_trans)
  then show ?thesis
    by (auto simp add: slice_axes_def Let_def split: prod.splits)
qed

lemma crop_step_wf:
  assumes "crop_step cr t = Inr t'" and "shape t = [n, c, w, h]" and "wf_tensor t"
  shows "wf_tensor t'" and "set (elems t') \<subseteq> set (elems t)"
    and "cr = None \<Longrightarrow> t' = t"
proof -
  show "wf_tensor t'"
    using assms slice_axes_wf[OF assms(2,3)]
    by (auto simp add: crop_step_def Let_def split: option.splits if_splits)
  show "set (elems t') \<subseteq> set (elems t)"
  proof (cases cr)
    case None
    with assms(1) show ?thesis by (simp add: crop_step_def)
  next
    case (Some a)
    with assms(1) obtain a0 b0 a1 b1 where "t' = slice_axes t a0 b0 a1 b1"
      by (auto simp add: crop_step_def Let_def split: if_splits)
    then show ?thesis by (simp add: slice_axes_elems)
  qed
  show "cr = None \<Longrightarrow> t' = t" using assms(1) by (simp add: crop_step_def)
qed

lemma prepare_wf:
  assumes "shape V = [Z, W, H]" and "wf_tensor V" and "prepare cfg V = Inr (t, n)"
  shows "wf_tensor t" and "set (elems t) \<subseteq> insert 0 (set (elems V))"
    and "offset cfg = Some 0 \<Longrightarrow> crop cfg = None \<Longrightarrow> t = \<lparr>shape = [Z, 1, W, H], elems = elems V\<rparr>"
proof -
  from assms(3) obtain t1 where t1: "offset_step (offset cfg) V = Inr t1"
    and cr: "crop_step (crop cfg) (handle_dims t1) = Inr t"
    by (auto simp add: prepare_def Let_def split: sum.splits)
  from t1 obtain k where k: "offset cfg = Some k" "0 \<le> k" "pad_offset (Some k) V = Inr t1"
    using offset_step_Inr by blast
  note p = pad_offset_wf[OF assms(1,2) k(3)]
  from pad_offset_rank3(1)[OF assms(1) k(3)]
  have sh1: "shape t1 = [Z + nat k, W, H]" by simp
  then have hd: "handle_dims t1 = t1\<lparr>shape := [Z + nat k, 1, W, H]\<rparr>"
    by (rule handle_dims_rank3)
  have sh2: "shape (handle_dims t1) = [Z + nat k, 1, W, H]" by (simp add: hd)
  have wf2: "wf_tensor (handle_dims t1)"
    using p(1) by (simp add: hd wf_tensor_def sh1)
  note c = crop_step_wf[OF cr sh2 wf2]
  show "wf_tensor t" by (rule c(1))
  show "set (elems t) \<subseteq> insert 0 (set (elems V))"
    using c(2) p(2) by (auto simp add: hd)
  show "t = \<lparr>shape = [Z, 1, W, H], elems = elems V\<rparr>"
    if "offset cfg = Some 0" "crop cfg = None"
  proof -
    from that k have k0: "k = 0" by simp
    from c(3)[OF that(2)] have "t = handle_dims t1" .
    then show ?thesis using p(3)[OF k0] sh1 k0 by (simp add: hd)
  qed
qed

lemma concat_chunks:
  "length xs = n * b \<Longrightarrow> concat (map (\<lambda>k. take b (drop (k * b) xs)) [0..<n]) = xs"
proof (induction n arbitrary: xs)
  case 0
  then show ?case by simp
next
  case (Suc n)
  have chunk: "take b (drop (k * b) (take (n * b) xs)) = take b (drop (k * b) xs)"
    if "k < n" for k
  proof -
    have "Suc k * b \<le> n * b" using that by (intro mult_le_mono1) simp
    then have "k * b + b \<le> n * b" by simp
    then show ?thesis by (simp add: drop_take min_def)
  qed
  have m: "map (\<lambda>k. take b (drop (k * b) xs)) [0..<n]
        = map (\<lambda>k. take b (drop (k * b) (take (n * b) xs))) [0..<n]"
    by (rule map_cong) (simp_all add: chunk)
  have ih: "concat (map (\<lambda>k. take b (drop (k * b) (take (n * b) xs))) [0..<n]) = take (n * b) xs"
    by (rule Suc.IH) (use Suc.prems in simp)
  have last: "take b (drop (n * b) xs) = drop (n * b) xs"
    using Suc.prems by simp
  have "concat (map (\<lambda>k. take b (drop (k * b) xs)) [0..<Suc n])
        = concat (map (\<lambda>k. take b (drop (k * b) xs)) [0..<n]) @ take b (drop (n * b) xs)"
    by simp
  also have "\<dots> = take (n * b) xs @ drop (n * b) xs"
    unfolding m ih last ..
  finally show ?case by simp
qed

lemma to_rgb_wf:
  assumes "shape t = [n, 1, h, w]" and "wf_tensor t"
  shows "wf_tensor (to_rgb t)" and "set (elems (to_rgb t)) = set (elems t)"
proof -
  have len: "length (elems t) = n * (h * w)"
    using assms by (simp add: wf_tensor_def mult.assoc)
  have rgb: "to_rgb t = \<lparr>shape = [n, 3, h, w],
      elems = concat (map (\<lambda>k. take (h * w) (drop (k * (h * w)) (elems t))
                                @ take (h * w) (drop (k * (h * w)) (elems t))
                                @ take (h * w) (drop (k * (h * w)) (elems t))) [0..<n])\<rparr>"
    using assms(1) by (simp add: to_rgb_def Let_def)
  have blk: "length (take (h * w) (drop (k * (h * w)) (elems t))) = h * w" if "k < n" for k
  proof -
    have "Suc k * (h * w) \<le> n * (h * w)" using that by (intro mult_le_mono1) simp
    then show ?thesis by (simp add: len)
  qed
  have "length (elems (to_rgb t)) = length [0..<n] * (3 * (h * w))"
    unfolding rgb tensor.simps
    by (rule length_concat_map_const) (use blk in auto)
  then show "wf_tensor (to_rgb t)"
    by (simp add: wf_tensor_def rgb)
  have "concat (map (\<lambda>k. take (h * w) (drop (k * (h * w)) (elems t))) [0..<n]) = elems t"
    using len by (rule concat_chunks)
  then have "set (elems t) =
      set (concat (map (\<lambda>k. take (h * w) (drop (k * (h * w)) (elems t))) [0..<n]))"
    by simp
  also have "\<dots> = (\<Union>k\<in>{0..<n}. set (take (h * w) (drop (k * (h * w)) (elems t))))"
    by simp
  finally show "set (elems (to_rgb t)) = set (elems t)"
    by (auto simp add: rgb)
qed

lemma grid_at_cases:
  assumes "wf_tensor t" and "shape t = [n, c, h, w]" and "ch < c"
    and "0 < h + m" and "0 < w + m"
  shows "grid_at t pad m xmaps ch r x \<in> insert pad (set (elems t))"
proof (cases "m \<le> r mod (h + m) \<and> m \<le> x mod (w + m) \<and> x div (w + m) < xmaps
              \<and> (r div (h + m)) * xmaps + x div (w + m) < n")
  case False
  then show ?thesis using assms(2) by (auto simp add: grid_at_def Let_def)
next
  case True
  define k where "k = (r div (h + m)) * xmaps + x div (w + m)"
  have i: "r mod (h + m) - m < h"
    using True mod_less_divisor[OF assms(4), of r] by linarith
  have j: "x mod (w + m) - m < w"
    using True mod_less_divisor[OF assms(5), of x] by linarith
  have "k < n" using True by (simp add: k_def)
  then have "((k * c + ch) * h + (r mod (h + m) - m)) * w + (x mod (w + m) - m) < n * c * h * w"
    using assms(3) i j by (rule idx4_bound)
  then have "((k * c + ch) * h + (r mod (h + m) - m)) * w + (x mod (w + m) - m) < length (elems t)"
    using assms(1,2) by (simp add: wf_tensor_def)
  then have "elems t ! (((k * c + ch) * h + (r mod (h + m) - m)) * w + (x mod (w + m) - m))
             \<in> set (elems t)"
    by (rule nth_mem)
  moreover have "grid_at t pad m xmaps ch r x =
      elems t ! (((k * c + ch) * h + (r mod (h + m) - m)) * w + (x mod (w + m) - m))"
    using True assms(2) by (simp add: grid_at_def Let_def k_def)
  ultimately show ?thesis by simp
qed

lemma tile_wf:
  assumes "wf_tensor t" and "shape t = [n, c, h, w]" and "tile nr m pad t = Inr g"
  shows "set (elems g) \<subseteq> insert pad (set (elems t))" and "wf_tensor g"
    and "length (shape g) = 3"
proof -
  show "set (elems g) \<subseteq> insert pad (set (elems t))"
  proof (cases "n = 1")
    case True
    with assms(2,3) show ?thesis by (auto simp add: tile_def)
  next
    case False
    define xmaps where "xmaps = min nr n"
    define gh where "gh = (h + m) * ((n + xmaps - 1) div xmaps) + m"
    define gw where "gw = (w + m) * xmaps + m"
    from assms(2,3) False have g: "elems g =
        concat (map (\<lambda>ch. concat (map (\<lambda>r. map (grid_at t pad m xmaps ch r) [0..<gw]) [0..<gh]))
                    [0..<c])"
      by (auto simp add: tile_def Let_def xmaps_def gh_def gw_def split: if_splits)
    have "grid_at t pad m xmaps ch r x \<in> insert pad (set (elems t))"
      if "ch < c" "r < gh" "x < gw" for ch r x
    proof -
      have "0 < h + m" using that(2) by (cases "h + m = 0") (simp_all add: gh_def)
      moreover have "0 < w + m" using that(3) by (cases "w + m = 0") (simp_all add: gw_def)
      ultimately show ?thesis using assms(1,2) that(1) by (intro grid_at_cases)
    qed
    note cell = this
    show ?thesis
    proof
      fix v assume "v \<in> set (elems g)"
      then obtain ch r x where "ch < c" "r < gh" "x < gw" "v = grid_at t pad m xmaps ch r x"
        unfolding g by auto
      then show "v \<in> insert pad (set (elems t))" using cell by blast
    qed
  qed
  show "wf_tensor g"
  proof (cases "n = 1")
    case True
    with assms(2,3) have "g = \<lparr>shape = [c, h, w], elems = elems t\<rparr>"
      by (simp add: tile_def)
    with assms(1,2) True show ?thesis by (simp add: wf_tensor_def)
  next
    case False
    define xmaps where "xmaps = min nr n"
    define gh where "gh = (h + m) * ((n + xmaps - 1) div xmaps) + m"
    define gw where "gw = (w + m) * xmaps + m"
    from assms(2,3) False have g: "elems g =
        concat (map (\<lambda>ch. concat (map (\<lambda>r. map (grid_at t pad m xmaps ch r) [0..<gw]) [0..<gh]))
                    [0..<c])" and sh: "shape g = [c, gh, gw]"
      by (auto simp add: tile_def Let_def xmaps_def gh_def gw_def split: if_splits)
    have inner: "length (concat (map (\<lambda>r. map (grid_at t pad m xmaps ch r) [0..<gw]) [0..<gh]))
                 = gh * gw" for ch
    proof -
      have "length (concat (map (\<lambda>r. map (grid_at t pad m xmaps ch r) [0..<gw]) [0..<gh]))
            = length [0..<gh] * gw"
        by (rule length_concat_map_const) simp
      then show ?thesis by simp
    qed
    have "length (elems g) = length [0..<c] * (gh * gw)"
      unfolding g by (rule length_concat_map_const) (simp add: inner)
    then show ?thesis by (simp add: wf_tensor_def sh mult.assoc)
  qed
  show "length (shape g) = 3"
    using assms(2,3) by (auto simp add: tile_def Let_def split: if_splits)
qed

lemma first_channel_elems:
  "first_channel g = Inr sg \<Longrightarrow> set (elems sg) \<subseteq> set (elems g)"
  by (auto simp add: first_channel_def Let_def split: if_splits dest: in_set_takeD)


lemma seg_grid_blank:
  assumes "length (shape seg) = 3" and "wf_tensor seg"
    and "\<forall>v \<in> set (elems seg). astype_uint8 v = 0" and "astype_uint8 (background cfg) = 0"
    and "seg_grid seg cfg = Inr sg"
  shows "blank sg"
proof -
  from assms(1) obtain Z W H where sh: "shape seg = [Z, W, H]" by (rule length3E)
  let ?s = "map_tensor astype_uint8 seg"
  have sh': "shape ?s = [Z, W, H]" and wf': "wf_tensor ?s"
    using sh assms(2) by (simp_all add: map_tensor_def wf_tensor_def)
  have z: "set (elems ?s) \<subseteq> {0}" using assms(3) by (auto simp add: map_tensor_def)
  from assms(5) obtain t n g where p: "prepare cfg ?s = Inr (t, n)"
    and mg: "make_grid n (margins cfg) (astype_uint8 (background cfg)) t = Inr g"
    and fc: "first_channel g = Inr sg"
    by (auto simp add: seg_grid_def split: sum.splits)
  from prepare_rank3[OF sh' p] obtain k w' h' where t: "shape t = [Z + nat k, 1, w', h']"
    by blast
  note pw = prepare_wf(1,2)[OF sh' wf' p]
  note rw = to_rgb_wf[OF t pw(1)]
  have rs: "shape (to_rgb t) = [Z + nat k, 3, w', h']" using t by (rule to_rgb_shape)
  from mg have "tile n (margins cfg) 0 (to_rgb t) = Inr g"
    by (simp add: make_grid_def assms(4))
  from tile_wf(1)[OF rw(1) rs this] have "set (elems g) \<subseteq> insert 0 (set (elems (to_rgb t)))" .
  with rw(2) pw(2) z have "set (elems g) \<subseteq> {0}" by auto
  with first_channel_elems[OF fc] show ?thesis by (auto simp add: blank_def)
qed

lemma tensor_min_Min:
  assumes "xs \<noteq> []"
  shows "tensor_min xs = Min (set xs)"
proof (cases xs)
  case Nil
  with assms show ?thesis by simp
next
  case (Cons a list)
  have "Min (set (a # list)) = fold min list a" by (rule Min.set_eq_fold)
  then show ?thesis using Cons by (simp add: tensor_min_def)
qed

lemma tensor_max_Max:
  assumes "xs \<noteq> []"
  shows "tensor_max xs = Max (set xs)"
proof (cases xs)
  case Nil
  with assms show ?thesis by simp
next
  case (Cons a list)
  have "Max (set (a # list)) = fold max list a" by (rule Max.set_eq_fold)
  then show ?thesis using Cons by (simp add: tensor_max_def)
qed

lemma idx3_bound:
  assumes "ch < c" and "r < gh" and "x < gw"
  shows "(ch * gh + r) * gw + x < c * gh * (gw::nat)"
proof -
  have "ch * gh + r < c * gh" using assms(1,2) by (rule idx2_bound)
  then show ?thesis using assms(3) by (rule idx2_bound)
qed

lemma permute_hwc_elems:
  assumes "shape g = [c, gh, gw]" and "wf_tensor g"
  shows "set (elems (permute_hwc g)) \<subseteq> set (elems g)"
proof
  fix v assume "v \<in> set (elems (permute_hwc g))"
  then obtain r x ch where "ch < c" "r < gh" "x < gw" "v = elems g ! ((ch * gh + r) * gw + x)"
    using assms(1) by (auto simp add: permute_hwc_def Let_def)
  moreover have "(ch * gh + r) * gw + x < length (elems g)"
    if "ch < c" "r < gh" "x < gw" for ch r x
    using idx3_bound[OF that] assms by (simp add: wf_tensor_def)
  ultimately show "v \<in> set (elems g)" by simp
qed

lemma astype_uint8_less: "astype_uint8 v < 256"
proof -
  have "(if 0 \<le> v then \<lfloor>v\<rfloor> else \<lceil>v\<rceil>) mod 256 < 256" by simp
  then show ?thesis unfolding astype_uint8_def by linarith
qed

lemma norm_ip_min: "lo \<le> hi \<Longrightarrow> norm_ip lo hi lo = 0"
  by (simp add: norm_ip_def)

lemma ceil_div_covers:
  assumes "0 < x"
  shows "n \<le> x * ((n + x - 1) div (x::nat))"
proof -
  have "(n + x - 1) mod x < x" using assms by simp
  moreover have "x * ((n + x - 1) div x) + (n + x - 1) mod x = n + x - 1"
    by (rule mult_div_mod_eq)
  ultimately show ?thesis by linarith
qed

lemma div_mod_cell:
  assumes "i < h"
  shows "(a * (h + m) + (m + i)) div (h + m) = a" and "(a * (h + m) + (m + i)) mod (h + m) = m + (i::nat)"
  using assms by simp_all

lemma cell_bound:
  assumes "a < y" and "i < h"
  shows "a * (h + m) + (m + i) < (h + m) * y + (m::nat)"
proof -
  have "a * (h + m) + (m + i) < a * (h + m) + (h + m)" using assms(2) by simp
  also have "\<dots> = Suc a * (h + m)" by simp
  also have "\<dots> \<le> y * (h + m)" using assms(1) by (intro mult_le_mono1) simp
  finally show ?thesis by (simp add: mult.commute)
qed

lemma index_split4:
  assumes "idx < n * c * h * (w::nat)"
  obtains k ch i j where "k < n" and "ch < c" and "i < h" and "j < w"
    and "idx = ((k * c + ch) * h + i) * w + j"
proof -
  have w: "0 < w" using assms by (cases w) auto
  have h: "0 < h" using assms by (cases h) auto
  have c: "0 < c" using assms by (cases c) auto
  define q1 where "q1 = idx div w"
  define q2 where "q2 = q1 div h"
  have 1: "q1 < n * c * h" unfolding q1_def using assms w by (simp add: less_mult_imp_div_less)
  have 2: "q2 < n * c" unfolding q2_def using 1 h by (simp add: less_mult_imp_div_less)
  have 3: "q2 div c < n" using 2 c by (simp add: less_mult_imp_div_less)
  have "idx = q1 * w + idx mod w" by (simp add: q1_def)
  moreover have "q1 = q2 * h + q1 mod h" by (simp add: q2_def)
  moreover have "q2 = (q2 div c) * c + q2 mod c" by simp
  ultimately have "idx = (((q2 div c) * c + q2 mod c) * h + q1 mod h) * w + idx mod w"
    by simp
  moreover have "q2 mod c < c" "q1 mod h < h" "idx mod w < w" using c h w by simp_all
  ultimately show ?thesis using 3 that by blast
qed

lemma tile_contains:
  assumes "wf_tensor t" and "shape t = [n, c, h, w]" and "tile nr m pad t = Inr g"
  shows "set (elems t) \<subseteq> set (elems g)"
proof (cases "n = 1")
  case True
  with assms(2,3) show ?thesis by (auto simp add: tile_def)
next
  case False
  define xmaps where "xmaps = min nr n"
  define ymaps where "ymaps = (n + xmaps - 1) div xmaps"
  define gh where "gh = (h + m) * ymaps + m"
  define gw where "gw = (w + m) * xmaps + m"
  from assms(2,3) False have g: "elems g =
      concat (map (\<lambda>ch. concat (map (\<lambda>r. map (grid_at t pad m xmaps ch r) [0..<gw]) [0..<gh]))
                  [0..<c])" and x0: "0 < xmaps"
    by (auto simp add: tile_def Let_def xmaps_def ymaps_def gh_def gw_def split: if_splits)
  have len: "length (elems t) = n * c * h * w"
    using assms(1,2) by (simp add: wf_tensor_def)
  show ?thesis
  proof
    fix v assume "v \<in> set (elems t)"
    then obtain idx where idx: "idx < n * c * h * w" "v = elems t ! idx"
      using len by (auto simp add: in_set_conv_nth)
    from idx(1) obtain k ch i j where kk: "k < n" "ch < c" "i < h" "j < w"
      and split: "idx = ((k * c + ch) * h + i) * w + j"
      by (rule index_split4)
    define a where "a = k div xmaps"
    define b where "b = k mod xmaps"
    define r where "r = a * (h + m) + (m + i)"
    define x where "x = b * (w + m) + (m + j)"
    have "k < xmaps * ymaps"
      using kk(1) ceil_div_covers[OF x0, of n] by (simp add: ymaps_def)
    then have ay: "a < ymaps" unfolding a_def
      by (simp add: less_mult_imp_div_less mult.commute)
    have bx: "b < xmaps" unfolding b_def using x0 by simp
    have rgh: "r < gh" unfolding r_def gh_def using ay kk(3) by (rule cell_bound)
    have xgw: "x < gw" unfolding x_def gw_def using bx kk(4) by (rule cell_bound)
    have rd: "r div (h + m) = a" "r mod (h + m) = m + i"
      unfolding r_def using kk(3) by (rule div_mod_cell)+
    have xd: "x div (w + m) = b" "x mod (w + m) = m + j"
      unfolding x_def using kk(4) by (rule div_mod_cell)+
    have kab: "a * xmaps + b = k" by (simp add: a_def b_def)
    have "grid_at t pad m xmaps ch r x = elems t ! idx"
      using assms(2) kk(1) bx by (simp add: grid_at_def Let_def rd xd kab split)
    then have "v = grid_at t pad m xmaps ch r x" using idx(2) by simp
    then show "v \<in> set (elems g)"
      unfolding g using kk(2) rgh xgw by force
  qed
qed

lemma index_split3:
  assumes "idx < c * gh * (gw::nat)"
  obtains ch r x where "ch < c" and "r < gh" and "x < gw" and "idx = (ch * gh + r) * gw + x"
proof -
  have w: "0 < gw" using assms by (cases gw) auto
  have h: "0 < gh" using assms by (cases gh) auto
  define q where "q = idx div gw"
  have 1: "q < c * gh" unfolding q_def using assms w by (simp add: less_mult_imp_div_less)
  have 2: "q div gh < c" using 1 h by (simp add: less_mult_imp_div_less)
  have "idx = q * gw + idx mod gw" by (simp add: q_def)
  moreover have "q = (q div gh) * gh + q mod gh" by simp
  ultimately have "idx = ((q div gh) * gh + q mod gh) * gw + idx mod gw" by simp
  moreover have "q mod gh < gh" "idx mod gw < gw" using h w by simp_all
  ultimately show ?thesis using 2 that by blast
qed

lemma permute_hwc_contains:
  assumes "shape g = [c, gh, gw]" and "wf_tensor g"
  shows "set (elems g) \<subseteq> set (elems (permute_hwc g))"
proof
  fix v assume "v \<in> set (elems g)"
  then obtain idx where "idx < length (elems g)" and v: "v = elems g ! idx"
    by (auto simp add: in_set_conv_nth)
  then have idx: "idx < c * gh * gw" "v = elems g ! idx"
    using assms by (simp_all add: wf_tensor_def mult.assoc)
  from idx(1) obtain ch r x where "ch < c" "r < gh" "x < gw" "idx = (ch * gh + r) * gw + x"
    by (rule index_split3)
  then show "v \<in> set (elems (permute_hwc g))"
    using assms(1) idx(2) by (force simp add: permute_hwc_def Let_def)
qed

section \<open>Normalization under rounding\<close>

text \<open>\<open>draw_grid\<close> is \<open>draw_grid_float\<close> in exact arithmetic, and both arithmetics qualify.\<close>

lemma draw_grid_float_exact: "draw_grid_float exact_arith lut im cfg = draw_grid lut im cfg"
proof -
  have n: "norm_ip_float exact_arith = norm_ip"
    by (intro ext) (simp add: norm_ip_float_def norm_ip_def exact_arith_def)
  have fs: "fscale exact_arith v = v * 255" and fp: "fpad exact_arith v = v" for v
    by (simp_all add: exact_arith_def)
  have "norm_range_float exact_arith t = norm_range t" for t
    by (simp add: norm_range_float_def norm_range_def n)
  then have "make_grid_normalize_float exact_arith nr p v t = make_grid_normalize nr p v t"
    for nr p v t
    by (simp add: make_grid_normalize_float_def make_grid_normalize_def fp split: sum.splits)
  then show ?thesis
    by (simp add: draw_grid_float_def draw_grid_def fs split: sum.splits prod.splits)
qed

lemma near_refl: "near x x"
  by (simp add: near_def)

lemma float_arith_exact: "float_arith exact_arith"
  by (simp add: float_arith_def exact_arith_def near_refl)

lemma near_bounds:
  assumes "near y x" and "0 \<le> x"
  shows "x * (9999 / 10000) \<le> y" and "y \<le> x * (10001 / 10000)"
proof -
  have "\<bar>x\<bar> = x" using assms(2) by simp
  then have a: "\<bar>y - x\<bar> \<le> x / 10000" using assms(1) unfolding near_def by simp
  have b: "y - x \<le> \<bar>y - x\<bar>" "x - y \<le> \<bar>y - x\<bar>" by linarith+
  have c: "x / 10000 = x * (1 / 10000)" by simp
  show "x * (9999 / 10000) \<le> y" using a b c by linarith
  show "y \<le> x * (10001 / 10000)" using a b c by linarith
qed

lemma near_zero: "near y 0 \<Longrightarrow> y = 0"
  by (simp add: near_def)

lemma float_arith_absorbing: "float_arith absorbing_arith"
proof -
  have "near (if 256 \<le> hi - lo then hi - lo else hi - lo + 1 / 100000) (hi - lo + 1 / 100000)"
    for hi lo :: rat
  proof (cases "256 \<le> hi - lo")
    case True
    then have "\<bar>hi - lo - (hi - lo + 1 / 100000)\<bar> \<le> \<bar>hi - lo + 1 / 100000\<bar> / 10000"
      by simp
    with True show ?thesis by (simp add: near_def)
  next
    case False
    then show ?thesis by (simp add: near_refl)
  qed
  moreover have "0 < (if 256 \<le> hi - lo then hi - lo else hi - lo + 1 / 100000)"
    if "lo \<le> hi" for hi lo :: rat
    using that by simp
  ultimately show ?thesis
    by (simp add: float_arith_def absorbing_arith_def exact_arith_def near_refl)
qed

lemma tensor_min_le_max:
  assumes "xs \<noteq> []"
  shows "tensor_min xs \<le> (tensor_max xs :: rat)"
proof -
  from assms obtain x where x: "x \<in> set xs" by (cases xs) auto
  have "tensor_min xs = Min (set xs)" using assms by (rule tensor_min_Min)
  moreover have "tensor_max xs = Max (set xs)" using assms by (rule tensor_max_Max)
  moreover have "Min (set xs) \<le> x" using x by simp
  moreover have "x \<le> Max (set xs)" using x by simp
  ultimately show ?thesis by simp
qed

lemma tensor_min_mem:
  assumes "xs \<noteq> []"
  shows "tensor_min xs \<in> set (xs :: rat list)" and "tensor_max xs \<in> set xs"
proof -
  have "tensor_min xs = Min (set xs)" using assms by (rule tensor_min_Min)
  moreover have "Min (set xs) \<in> set xs" using assms by (intro Min_in) simp_all
  ultimately show "tensor_min xs \<in> set xs" by simp
  have "tensor_max xs = Max (set xs)" using assms by (rule tensor_max_Max)
  moreover have "Max (set xs) \<in> set xs" using assms by (intro Max_in) simp_all
  ultimately show "tensor_max xs \<in> set xs" by simp
qed

lemma astype_uint8_zero: "astype_uint8 0 = 0"
  by (simp add: astype_uint8_def)

lemma in_range_zero: "in_range 0"
  by (simp add: in_range_def)

lemma in_range_between:
  assumes "1 / 10 ^ 30 \<le> x" and "x \<le> 10 ^ 30"
  shows "in_range x"
proof -
  have "(0::rat) < 1 / 10 ^ 30" by simp
  then have "0 \<le> x" using assms(1) by linarith
  then have "\<bar>x\<bar> = x" by simp
  then show ?thesis using assms by (simp add: in_range_def)
qed

lemma in_range_mid:
  assumes "1 / 2 \<le> x" and "x \<le> 1000"
  shows "in_range x"
proof (rule in_range_between)
  have "(1::rat) / 10 ^ 30 \<le> 1 / 2" by simp
  then show "1 / 10 ^ 30 \<le> x" using assms(1) by linarith
  have "(1000::rat) \<le> 10 ^ 30" by simp
  then show "x \<le> 10 ^ 30" using assms(2) by linarith
qed

lemma float_arithD:
  assumes "float_arith ar"
  shows "in_range (x - y) \<Longrightarrow> near (fsub ar x y) (x - y)"
    and "in_range (hi - lo + 1 / 100000) \<Longrightarrow> near (fden ar hi lo) (hi - lo + 1 / 100000)"
    and "lo \<le> hi \<Longrightarrow> 0 < fden ar hi lo"
    and "d \<noteq> 0 \<Longrightarrow> in_range (x / d) \<Longrightarrow> near (fdiv ar x d) (x / d)"
    and "in_range (x * 255) \<Longrightarrow> near (fscale ar x) (x * 255)"
  using assms unfolding float_arith_def by blast+

text \<open>The minimum intensity is mapped to the byte 0, whatever the rounding.\<close>

lemma min_byte_float:
  assumes "float_arith ar" and "lo \<le> hi"
  shows "astype_uint8 (fscale ar (norm_ip_float ar lo hi lo)) = 0"
proof -
  have "near (fsub ar lo lo) (lo - lo)"
    using assms(1) by (rule float_arithD(1)) (simp add: in_range_zero)
  then have a: "fsub ar lo lo = 0" by (simp add: near_zero)
  have d: "0 < fden ar hi lo" using assms by (rule float_arithD(3))
  then have d0: "fden ar hi lo \<noteq> 0" by simp
  have "near (fdiv ar 0 (fden ar hi lo)) (0 / fden ar hi lo)"
    using assms(1) d0 by (rule float_arithD(4)) (simp add: in_range_zero)
  then have q: "fdiv ar 0 (fden ar hi lo) = 0" by (simp add: near_zero)
  have "near (fscale ar 0) (0 * 255)"
    using assms(1) by (rule float_arithD(5)) (simp add: in_range_zero)
  then have "fscale ar 0 = 0" by (simp add: near_zero)
  moreover have "max lo (min hi lo) = lo" using assms(2) by simp
  ultimately show ?thesis
    by (simp add: norm_ip_float_def a q astype_uint8_zero)
qed

text \<open>
  The maximum intensity is mapped to 254 or to 255 when the range of the intensities is
  at least one hundredth: the quotient is just below 1 in exact arithmetic, and the
  rounding of the four operations decides on which side of 255 the scaled value falls.
\<close>

lemma max_byte_float:
  assumes fa: "float_arith ar" and r1: "1 / 100 \<le> hi - lo" and r2: "hi - lo \<le> 10 ^ 29"
  shows "astype_uint8 (fscale ar (norm_ip_float ar lo hi hi)) = 254
       \<or> astype_uint8 (fscale ar (norm_ip_float ar lo hi hi)) = 255"
proof -
  define r where "r = hi - lo"
  define e where "e = r + 1 / 100000"
  define a where "a = fsub ar hi lo"
  define d where "d = fden ar hi lo"
  define q where "q = fdiv ar a d"
  define s where "s = fscale ar q"
  have big: "(10::rat) ^ 29 = 100000000000000000000000000000"
    and big': "(10::rat) ^ 30 = 1000000000000000000000000000000" by simp_all
  have rl: "1 / 100 \<le> r" and ru: "r \<le> 100000000000000000000000000000"
    using r1 r2 by (simp_all add: r_def)
  have lohi: "lo \<le> hi" using rl unfolding r_def by linarith
  have r0: "0 \<le> r" and e0: "0 \<le> e" using rl by (simp_all add: e_def)
  have "in_range r"
    using rl ru by (intro in_range_between) (simp_all add: big')
  then have "near a r" unfolding a_def r_def using fa by (intro float_arithD(1))
  from near_bounds[OF this r0] have a1: "r * (9999 / 10000) \<le> a" and a2: "a \<le> r * (10001 / 10000)" .
  have "in_range e"
    using rl ru by (intro in_range_between) (simp_all add: e_def big')
  then have "near d e" unfolding d_def e_def r_def using fa by (intro float_arithD(2))
  from near_bounds[OF this e0] have d1: "e * (9999 / 10000) \<le> d" and d2: "d \<le> e * (10001 / 10000)" .
  have el: "r \<le> e" and eu: "e \<le> r * (1001 / 1000)" using rl unfolding e_def by simp_all
  have dpos: "0 < d" using d1 el rl by linarith
  define x where "x = a / d"
  have "998 / 1000 * d \<le> a" using a1 d2 eu rl by linarith
  then have x1: "998 / 1000 \<le> x" unfolding x_def using dpos by (simp add: pos_le_divide_eq)
  have "a \<le> 10003 / 10000 * d" using a2 d1 el rl by linarith
  then have x2: "x \<le> 10003 / 10000" unfolding x_def using dpos by (simp add: pos_divide_le_eq)
  have "in_range x"
    by (rule in_range_mid) (use x1 x2 in linarith)+
  moreover have "d \<noteq> 0" using dpos by simp
  ultimately have "near q x" unfolding q_def x_def using fa by (intro float_arithD(4))
  moreover have "0 \<le> x" using x1 by linarith
  ultimately have q1: "x * (9999 / 10000) \<le> q" and q2: "q \<le> x * (10001 / 10000)"
    by (rule near_bounds)+
  have y1: "254 + 4 / 10 \<le> q * 255" and y2: "q * 255 \<le> 255 + 2 / 10"
    using q1 q2 x1 x2 by linarith+
  have "in_range (q * 255)"
    by (rule in_range_mid) (use y1 y2 in linarith)+
  then have "near s (q * 255)" unfolding s_def using fa by (intro float_arithD(5))
  moreover have "0 \<le> q * 255" using y1 by linarith
  ultimately have "q * 255 * (9999 / 10000) \<le> s" and "s \<le> q * 255 * (10001 / 10000)"
    by (rule near_bounds)+
  then have s1: "254 \<le> s" and s2: "s < 256" using y1 y2 by linarith+
  have fl: "\<lfloor>s\<rfloor> = 254 \<or> \<lfloor>s\<rfloor> = 255"
  proof -
    have "254 \<le> \<lfloor>s\<rfloor>" using s1 by (simp add: le_floor_iff)
    moreover have "\<lfloor>s\<rfloor> < 256" using s2 by (simp add: floor_less_iff)
    ultimately show ?thesis by linarith
  qed
  have s0: "0 \<le> s" using s1 by linarith
  have "astype_uint8 s = 254 \<or> astype_uint8 s = 255"
    using fl s0 by (auto simp add: astype_uint8_def)
  moreover have "max lo (min hi hi) = hi" using lohi by simp
  ultimately show ?thesis
    by (simp add: norm_ip_float_def s_def q_def a_def d_def)
qed

text \<open>
  Without crop and colour map and with offset 0, every value of the composed image is the
  byte of the margin fill or the byte of a normalized voxel, and the byte of every voxel
  is in the image.
\<close>

lemma draw_grid_float_elems:
  assumes "shape V = [Z, W, H]" and "wf_tensor V"
    and "offset cfg = Some 0" and "crop cfg = None"
    and "cmap cfg = None \<or> cmap cfg = Some ''Default''"
    and "draw_grid_float ar lut V cfg = Inr out"
  shows "elems V \<noteq> []"
    and "set (elems out) \<subseteq> insert (margin_byte ar cfg) (voxel_byte ar V ` set (elems V))"
    and "voxel_byte ar V ` set (elems V) \<subseteq> set (elems out)"
proof -
  let ?b = "\<lambda>v. astype_uint8 (fscale ar v)"
  let ?n = "norm_ip_float ar (tensor_min (elems V)) (tensor_max (elems V))"
  from assms(6) obtain t n g where p: "prepare cfg V = Inr (t, n)"
    and mg: "make_grid_normalize_float ar n (margins cfg) (background cfg) t = Inr g"
    and col: "colorize lut (cmap cfg) (permute_hwc (map_tensor ?b g)) = Inr out"
    by (auto simp add: draw_grid_float_def split: sum.splits)
  from prepare_wf(3)[OF assms(1,2) p assms(3,4)]
  have t: "t = \<lparr>shape = [Z, 1, W, H], elems = elems V\<rparr>" .
  have tsh: "shape t = [Z, 1, W, H]" and twf: "wf_tensor t"
    using t assms(1,2) by (simp_all add: wf_tensor_def)
  note rw = to_rgb_wf[OF tsh twf]
  have rsh: "shape (to_rgb t) = [Z, 3, W, H]" using tsh by (rule to_rgb_shape)
  from mg tsh obtain t' where nr: "norm_range_float ar (to_rgb t) = Inr t'"
    and tl: "tile n (margins cfg) (fpad ar (background cfg)) t' = Inr g"
    by (auto simp add: make_grid_normalize_float_def split: sum.splits)
  from nr have ne: "elems (to_rgb t) \<noteq> []"
    and t': "t' = (to_rgb t)\<lparr>elems := map (norm_ip_float ar (tensor_min (elems (to_rgb t)))
                                               (tensor_max (elems (to_rgb t)))) (elems (to_rgb t))\<rparr>"
    by (auto simp add: norm_range_float_def split: if_splits)
  have sV: "set (elems (to_rgb t)) = set (elems V)" using rw(2) t by simp
  with ne show neV: "elems V \<noteq> []" by auto
  have lo: "tensor_min (elems (to_rgb t)) = tensor_min (elems V)"
    using ne neV sV by (simp add: tensor_min_Min)
  have hi: "tensor_max (elems (to_rgb t)) = tensor_max (elems V)"
    using ne neV sV by (simp add: tensor_max_Max)
  have t'sh: "shape t' = [Z, 3, W, H]" and t'wf: "wf_tensor t'"
    using rsh rw(1) by (simp_all add: t' wf_tensor_def)
  have t'el: "set (elems t') = ?n ` set (elems V)"
    by (simp add: t' lo hi sV)
  have vb: "?b ` ?n ` set (elems V) = voxel_byte ar V ` set (elems V)"
    by (simp add: image_image voxel_byte_def)
  note tw = tile_wf[OF t'wf t'sh tl]
  from tw(3) obtain c gh gw where gsh: "shape g = [c, gh, gw]" by (rule length3E)
  let ?G = "map_tensor ?b g"
  have Gsh: "shape ?G = [c, gh, gw]" and Gwf: "wf_tensor ?G"
    using gsh tw(2) by (simp_all add: map_tensor_def wf_tensor_def)
  have out: "out = permute_hwc ?G"
    using col assms(5) by (auto simp add: colorize_def)
  have "set (elems out) \<subseteq> set (elems ?G)"
    unfolding out using Gsh Gwf by (rule permute_hwc_elems)
  also have "\<dots> = ?b ` set (elems g)"
    by (simp add: map_tensor_def)
  also have "\<dots> \<subseteq> ?b ` insert (fpad ar (background cfg)) (set (elems t'))"
    using tw(1) by (rule image_mono)
  also have "\<dots> = insert (margin_byte ar cfg) (voxel_byte ar V ` set (elems V))"
    unfolding t'el image_insert vb by (simp add: margin_byte_def)
  finally show "set (elems out) \<subseteq> insert (margin_byte ar cfg) (voxel_byte ar V ` set (elems V))" .
  have "?b ` set (elems t') \<subseteq> ?b ` set (elems g)"
    using tile_contains[OF t'wf t'sh tl] by (rule image_mono)
  also have "\<dots> = set (elems ?G)" by (simp add: map_tensor_def)
  also have "\<dots> \<subseteq> set (elems out)"
    unfolding out using Gsh Gwf by (rule permute_hwc_contains)
  finally show "voxel_byte ar V ` set (elems V) \<subseteq> set (elems out)"
    unfolding t'el vb .
qed

section \<open>The offset and crop steps away from the defects\<close>

lemma negative_offset_fails:
  assumes "k < 0"
  shows "draw_grid lut im (cfg\<lparr>offset := Some k\<rparr>) = Inl AssertionError"
    and "draw_grid_contour cv im_grid seg (cfg\<lparr>offset := Some k\<rparr>) = Inl AssertionError"
  using assms
  by (simp_all add: draw_grid_def draw_grid_contour_def seg_grid_def prepare_def offset_step_def
      assert_offset_def)

lemma squeeze_no_unit:
  assumes "shape V = [Z, W, H]" and "Z \<noteq> 1" and "W \<noteq> 1" and "H \<noteq> 1"
  shows "squeeze V = V"
  using assms by (simp add: squeeze_def)

lemma squeeze_unit_fails:
  assumes "shape V = [Z, W, H]" and "W = 1 \<or> H = 1"
  shows "ConstantPad3d k (squeeze V) = Inl TorchError"
proof -
  have "length (filter (\<lambda>d. d \<noteq> 1) [Z, W, H]) < 3"
    using assms(2) by auto
  then show ?thesis using assms(1) by (simp add: ConstantPad3d_low_rank squeeze_def)
qed

lemma offset_prepends_zero_slices:
  assumes "shape V = [Z, W, H]" and "wf_tensor V"
    and "Z \<noteq> 1" and "W \<noteq> 1" and "H \<noteq> 1" and "0 \<le> k"
  shows "offset_step (Some k) V = Inr (prepend_zero_slices (nat k) V)"
proof -
  have len: "length (elems V) = Z * W * H"
    using assms(1,2) by (simp add: wf_tensor_def)
  have "ConstantPad3d (nat k) (squeeze V) =
          Inr \<lparr>shape = [Z + nat k, W, H],
               elems = replicate (nat k * W * H) 0 @ take (Z * W * H) (elems V)\<rparr>"
    using assms(1,3,4,5) by (simp add: squeeze_no_unit ConstantPad3d_rank3)
  then show ?thesis
    using assms(1,6) len
    by (simp add: offset_step_def assert_offset_def pad_offset_def prepend_zero_slices_def)
qed

lemma offset_step_prepended:
  assumes "shape V = [Z, W, H]" and "wf_tensor V" and "2 \<le> Z"
  shows "offset_step (Some (int k)) V = offset_step (Some 0) (prepend_zero_slices k V)"
proof (cases "W = 1 \<or> H = 1")
  case True
  have sh': "shape (prepend_zero_slices k V) = [Z + k, W, H]"
    using assms(1) by (simp add: prepend_zero_slices_def)
  show ?thesis
    using squeeze_unit_fails[OF assms(1) True] squeeze_unit_fails[OF sh' True]
    by (simp add: offset_step_def assert_offset_def pad_offset_def)
next
  case False
  let ?V' = "prepend_zero_slices k V"
  have sh': "shape ?V' = [Z + k, W, H]"
    using assms(1) by (simp add: prepend_zero_slices_def)
  have wf': "wf_tensor ?V'"
    using assms(1,2) by (simp add: prepend_zero_slices_def wf_tensor_def add_mult_distrib)
  have "offset_step (Some (int k)) V = Inr (prepend_zero_slices (nat (int k)) V)"
    using assms False by (intro offset_prepends_zero_slices) auto
  moreover have "offset_step (Some 0) ?V' = Inr (prepend_zero_slices (nat 0) ?V')"
    using sh' wf' assms(3) False by (intro offset_prepends_zero_slices) auto
  moreover have "prepend_zero_slices 0 ?V' = ?V'"
    using sh' by (simp add: prepend_zero_slices_def)
  ultimately show ?thesis by simp
qed

text \<open>
  Away from the defect: on a well-formed volume of at least two slices, offset \<open>k\<close> gives
  what offset 0 gives on the volume with \<open>k\<close> zero-filled slices in front.
\<close>

lemma offset_equivalence_from_two_slices:
  assumes "length (shape V) = 3" and "wf_tensor V" and "2 \<le> shape V ! 0"
  shows "draw_grid lut V (cfg\<lparr>offset := Some (int k)\<rparr>) =
         draw_grid lut (prepend_zero_slices k V) (cfg\<lparr>offset := Some 0\<rparr>)"
proof -
  from assms(1) obtain Z W H where sh: "shape V = [Z, W, H]" by (rule length3E)
  have "offset_step (Some (int k)) V = offset_step (Some 0) (prepend_zero_slices k V)"
    using sh assms(2,3) by (intro offset_step_prepended) auto
  then have "prepare (cfg\<lparr>offset := Some (int k)\<rparr>) V =
             prepare (cfg\<lparr>offset := Some 0\<rparr>) (prepend_zero_slices k V)"
    by (simp add: prepare_def Let_def split: sum.splits)
  then show ?thesis by (simp add: draw_grid_def split: sum.splits prod.splits)
qed

lemma lower_bound_nonneg: "l \<in> set (lower_bound cr) \<Longrightarrow> 0 \<le> l"
  by (auto simp add: lower_bound_def)

section \<open>Properties\<close>

subsection \<open>The offset step\<close>

text \<open>
  C3, at the input the code gets wrong: with the offset left unspecified (\<open>None\<close>, the
  default), both \<open>draw_grid\<close> and \<open>draw_grid_contour\<close> fail with \<open>TypeError\<close> at the assertion
  of the offset step, for every volume, mask and remaining configuration.
\<close>

theorem offset_unspecified_fails:
  "draw_grid lut im (cfg\<lparr>offset := None\<rparr>) = Inl TypeError
   \<and> draw_grid_contour cv im_grid seg (cfg\<lparr>offset := None\<rparr>) = Inl TypeError"
  by (simp add: draw_grid_def draw_grid_contour_def seg_grid_def prepare_def offset_step_def
      assert_offset_def)

text \<open>
  C5, at the input the code gets wrong: a volume of one slice with offset 1 fails (the
  squeeze removes the depth axis and the padding refuses the two remaining axes), while
  the same volume with one zero-filled slice put in front and offset 0 yields a grid.
\<close>

theorem single_slice_offset_differs:
  "draw_grid gray_table \<lparr>shape = [1, 2, 2], elems = [0, 1, 2, 3]\<rparr>
       (default_config\<lparr>offset := Some 1, margins := 0\<rparr>) = Inl TorchError
   \<and> draw_grid gray_table (prepend_zero_slices 1 \<lparr>shape = [1, 2, 2], elems = [0, 1, 2, 3]\<rparr>)
       (default_config\<lparr>offset := Some 0, margins := 0\<rparr>) =
     Inr \<lparr>shape = [2, 4, 3],
          elems = [0, 0, 0, 0, 0, 0, 0, 0, 0, 84, 84, 84,
                   0, 0, 0, 0, 0, 0, 169, 169, 169, 254, 254, 254]\<rparr>"
  by code_simp

subsection \<open>The crop step\<close>

text \<open>
  C1, at the input the code gets wrong: for a volume of shape \<open>[2, 5, 3]\<close> and the crop
  with center \<open>[2, 1]\<close> and size \<open>[4, 10]\<close>, the tensor that is cropped has shape
  \<open>[2, 1, 5, 3]\<close>, so its spatial axes have extents 5 and 3. The upper bounds are taken
  against the extents 1 and 5 of the channel axis and the first spatial axis: they are
  \<open>[1, 5]\<close>, and the second one exceeds the extent 3 of the axis that it slices, while
  the first one keeps a single row of the five.
\<close>

theorem crop_upper_bound_exceeds_axis:
  "offset_step (Some 0) \<lparr>shape = [2, 5, 3], elems = map of_nat [0..<30]\<rparr> =
     Inr \<lparr>shape = [2, 5, 3], elems = map of_nat [0..<30] :: rat list\<rparr>
   \<and> shape (handle_dims \<lparr>shape = [2, 5, 3], elems = map of_nat [0..<30] :: rat list\<rparr>) = [2, 1, 5, 3]
   \<and> lower_bound \<lparr>center = [2, 1], csize = [4, 10]\<rparr> = [0, 0]
   \<and> upper_bound \<lparr>center = [2, 1], csize = [4, 10]\<rparr> [2, 1, 5, 3] = [1, 5]
   \<and> prepare (default_config\<lparr>offset := Some 0, crop := Some \<lparr>center = [2, 1], csize = [4, 10]\<rparr>\<rparr>)
        \<lparr>shape = [2, 5, 3], elems = map of_nat [0..<30]\<rparr> =
      Inr (\<lparr>shape = [2, 1, 1, 3], elems = [0, 1, 2, 15, 16, 17 :: rat]\<rparr>, 2)"
  by code_simp

subsection \<open>Failures while contours are extracted and drawn\<close>

text \<open>
  C2 as stated fails: when \<open>findContours\<close> raises, the exception leaves
  \<open>draw_grid_contour\<close>, since the call stands before the \<open>try\<close> block.
\<close>

theorem extraction_failure_propagates:
  "draw_grid_contour cv_extraction_fails
       \<lparr>shape = [2, 4, 3], elems = replicate 24 0\<rparr>
       \<lparr>shape = [2, 2, 2], elems = [0, 0, 0, 1, 0, 0, 0, 0]\<rparr>
       (default_config\<lparr>offset := Some 0, margins := 0, color := Brush 255 255 0 255\<rparr>) = Inl CvError"
  by code_simp

text \<open>
  C2 (amended): once the mask grid is built and its contours are extracted, a failure of
  the drawing, be it in the evaluation of the colour argument or inside \<open>drawContours\<close>,
  is caught: the function returns the base grid image unmodified (and has printed the
  exception); no exception leaves the function.
\<close>

theorem drawing_failure_is_caught:
  assumes "seg_grid seg cfg = Inr sg" and "findContours cv sg = Inr cs"
    and "color_rgb (color cfg) = Inl e
         \<or> (\<exists>rgb. color_rgb (color cfg) = Inr rgb
                 \<and> drawContours cv im_grid cs rgb (thickness cfg) = Inl e)"
  shows "draw_grid_contour cv im_grid seg cfg = Inr (im_grid, [e])"
  using assms by (auto simp add: draw_grid_contour_def)

theorem drawing_failure_is_caught_witness:
  "draw_grid_contour cv_drawing_fails
       \<lparr>shape = [2, 4, 3], elems = replicate 24 0\<rparr>
       \<lparr>shape = [2, 2, 2], elems = [0, 0, 0, 1, 0, 0, 0, 0]\<rparr>
       (default_config\<lparr>offset := Some 0, margins := 0, color := Brush 255 255 0 255\<rparr>)
     = Inr (\<lparr>shape = [2, 4, 3], elems = replicate 24 0\<rparr>, [CvError])"
proof -
  have g: "seg_grid \<lparr>shape = [2, 2, 2], elems = [0, 0, 0, 1, 0, 0, 0, 0]\<rparr>
       (default_config\<lparr>offset := Some 0, margins := 0, color := Brush 255 255 0 255\<rparr>)
       = Inr \<lparr>shape = [2, 4], elems = [0, 0, 0, 0, 0, 1, 0, 0]\<rparr>"
    by code_simp
  have f: "findContours cv_drawing_fails \<lparr>shape = [2, 4], elems = [0, 0, 0, 0, 0, 1, 0, 0]\<rparr> = Inr ()"
    by (simp add: cv_drawing_fails_def)
  have d: "color_rgb (color (default_config\<lparr>offset := Some 0, margins := 0, color := Brush 255 255 0 255\<rparr>)) = Inl CvError
         \<or> (\<exists>rgb. color_rgb (color (default_config\<lparr>offset := Some 0, margins := 0, color := Brush 255 255 0 255\<rparr>)) = Inr rgb
                 \<and> drawContours cv_drawing_fails \<lparr>shape = [2, 4, 3], elems = replicate 24 0\<rparr> () rgb
                      (thickness (default_config\<lparr>offset := Some 0, margins := 0, color := Brush 255 255 0 255\<rparr>)) = Inl CvError)"
    by (simp add: color_rgb_def cv_drawing_fails_def)
  show ?thesis by (rule drawing_failure_is_caught [OF g f d])
qed

subsection \<open>The drawing thread\<close>

text \<open>
  C7 as stated fails: when the entry \<open>target_im\<close> is missing, \<open>run\<close> raises \<open>KeyError\<close>,
  which its handler for \<open>AttributeError\<close> does not catch: the exception leaves \<open>run\<close> and
  no message is emitted.
\<close>

theorem missing_target_im_propagates:
  "fst (run gray_table cv_no_contours
          (set_config \<lparr>target_im = None, segment = None, segment_color = None,
                       kwargs = default_config\<lparr>offset := Some 0\<rparr>\<rparr> wrapper_init)) = Some KeyError
   \<and> emitted (snd (run gray_table cv_no_contours
          (set_config \<lparr>target_im = None, segment = None, segment_color = None,
                       kwargs = default_config\<lparr>offset := Some 0\<rparr>\<rparr> wrapper_init))) = []"
  by (simp add: run_def set_config_def wrapper_init_def handle_error_def)

text \<open>
  C7 (amended): when the entry \<open>target_im\<close> is present but is not an array (\<open>None\<close> or
  another object without the methods of a tensor) and the offset is set and not negative,
  \<open>run\<close> emits the message ``Wrong drawing configuration'' through \<open>display_msg\<close> and no
  exception leaves it.
\<close>

theorem non_array_target_reports_message:
  assumes "wconfig w = Some d"
    and "target_im d = Some PyNone \<or> target_im d = Some PyObject"
    and "offset (kwargs d) = Some k" and "0 \<le> k"
  shows "run lut cv w =
           (None, w\<lparr>wconfig := Some (d\<lparr>target_im := None\<rparr>),
                    emitted := emitted w @ [''Wrong drawing configuration'']\<rparr>)"
  using assms
  by (auto simp add: run_def draw_grid_obj_def assert_offset_def handle_error_def)

theorem non_array_target_reports_message_witness:
  "run gray_table cv_no_contours
     (set_config \<lparr>target_im = Some PyNone, segment = None, segment_color = None,
                  kwargs = default_config\<lparr>offset := Some 0\<rparr>\<rparr> wrapper_init) =
   (None, \<lparr>wconfig = Some \<lparr>target_im = None, segment = None, segment_color = None,
                           kwargs = default_config\<lparr>offset := Some 0\<rparr>\<rparr>,
           wresult = None, emitted = [''Wrong drawing configuration''], printed = []\<rparr>)"
  using non_array_target_reports_message
          [of "set_config \<lparr>target_im = Some PyNone, segment = None, segment_color = None,
                  kwargs = default_config\<lparr>offset := Some 0\<rparr>\<rparr> wrapper_init"
              "\<lparr>target_im = Some PyNone, segment = None, segment_color = None,
                  kwargs = default_config\<lparr>offset := Some 0\<rparr>\<rparr>" 0 gray_table cv_no_contours]
  by (simp add: set_config_def wrapper_init_def default_config_def)

subsection \<open>The reader thread\<close>

text \<open>
  C10: without a reader (the wrapper as it is created, or any wrapper whose reader is
  \<open>None\<close>), the indexed lookup returns \<open>None\<close> for every key and does not raise; once a
  reader is configured, it returns what the reader's own lookup returns (or raises what
  it raises).
\<close>

theorem getitem_without_and_with_reader:
  "getitem reader_getitem reader_wrapper_init item = Inr None
   \<and> getitem reader_getitem (w\<lparr>reader := None\<rparr>) item = Inr None
   \<and> getitem reader_getitem (configure_reader r w) item = reader_getitem r item"
  by (simp add: getitem_def reader_wrapper_init_def configure_reader_def)

subsection \<open>Column count\<close>

text \<open>
  C6 as stated fails: with the column count set to 5 on a volume of depth 4, the grid has
  4 columns (the two rows of the image are 4 slices of width 2 wide, not 5).
\<close>

theorem explicit_column_count_is_capped:
  "draw_grid gray_table volume_4x2x2 (default_config\<lparr>offset := Some 0, nrow := Some 5, margins := 0\<rparr>) =
   Inr \<lparr>shape = [2, 4 * 2, 3],
        elems =
          [0, 0, 0, 16, 16, 16, 67, 67, 67, 84, 84, 84, 135, 135, 135, 152,
           152, 152, 203, 203, 203, 220, 220, 220, 33, 33, 33, 50, 50, 50,
           101, 101, 101, 118, 118, 118, 169, 169, 169, 186, 186, 186, 237,
           237, 237, 254, 254, 254]\<rparr>"
  by code_simp

text \<open>
  C6 (amended): whenever \<open>draw_grid\<close> returns on a volume of three axes whose depth after
  the offset slices are put in front is \<open>d \<noteq> 1\<close>, the tensor that is tiled has \<open>d\<close> slices,
  the column count handed to \<open>make_grid\<close> is the configured one, or \<open>ceil(sqrt(d))\<close> when it
  is unset, and the composed image is made of \<open>min(n, d)\<close> columns for a configured count
  \<open>n\<close> and of \<open>ceil(sqrt(d))\<close> columns for an unset one: its width is that number of
  cells of slice width plus margin, plus one margin.
\<close>

theorem grid_column_count:
  assumes "length (shape V) = 3" and "prepare cfg V = Inr (t, n)"
    and "draw_grid lut V cfg = Inr out" and "effective_depth cfg V \<noteq> 1"
  shows "shape t ! 0 = effective_depth cfg V
       \<and> n = (case nrow cfg of None \<Rightarrow> ceil_sqrt (effective_depth cfg V) | Some n' \<Rightarrow> n')
       \<and> shape out =
           [(shape t ! 2 + margins cfg) * grid_rows cfg (effective_depth cfg V) + margins cfg,
            (shape t ! 3 + margins cfg) * grid_columns cfg (effective_depth cfg V) + margins cfg,
            3]"
proof -
  from assms(1) obtain Z W H where V: "shape V = [Z, W, H]" by (rule length3E)
  from prepare_rank3[OF V assms(2)] obtain k w' h' where
    k: "offset cfg = Some k" "0 \<le> k" and t: "shape t = [Z + nat k, 1, w', h']"
    and n: "n = (case nrow cfg of Some n' \<Rightarrow> n' | None \<Rightarrow> ceil_sqrt (Z + nat k))"
    by blast
  define d where "d = Z + nat k"
  have d: "effective_depth cfg V = d" by (simp add: effective_depth_def V k d_def)
  from assms(3,2) obtain g where g: "make_grid_normalize n (margins cfg) (background cfg) t = Inr g"
    and out: "colorize lut (cmap cfg) (permute_hwc (map_tensor (\<lambda>v. astype_uint8 (v * 255)) g)) = Inr out"
    by (auto simp add: draw_grid_def split: sum.splits)
  have d1: "d \<noteq> 1" using assms(4) d by simp
  from make_grid_normalize_shape[OF g] t d1
  have gs: "shape g = [3, (w' + margins cfg) * ((d + min n d - 1) div min n d) + margins cfg,
                       (h' + margins cfg) * min n d + margins cfg]"
    by (simp add: d_def)
  have cols: "min n d = grid_columns cfg d"
    using n ceil_sqrt_spec[of d]
    by (auto simp add: grid_columns_def d_def split: option.splits)
  have "shape (permute_hwc (map_tensor (\<lambda>v. astype_uint8 (v * 255)) g)) =
          [(w' + margins cfg) * ((d + min n d - 1) div min n d) + margins cfg,
           (h' + margins cfg) * min n d + margins cfg, 3]"
    by (rule permute_hwc_shape) (simp add: map_tensor_def gs)
  from colorize_shape[OF out this]
  have "shape out = [(w' + margins cfg) * grid_rows cfg d + margins cfg,
           (h' + margins cfg) * grid_columns cfg d + margins cfg, 3]"
    by (simp add: cols grid_rows_def)
  with t n show ?thesis unfolding d by (simp add: d_def split: option.splits)
qed

theorem grid_column_count_witness:
  "length (shape volume_4x2x2) = 3
   \<and> effective_depth (default_config\<lparr>offset := Some 2, margins := 0\<rparr>) volume_4x2x2 = 6
   \<and> grid_columns (default_config\<lparr>offset := Some 2, margins := 0\<rparr>) 6 = 3
   \<and> (case draw_grid gray_table volume_4x2x2 (default_config\<lparr>offset := Some 2, margins := 0\<rparr>) of
        Inl e \<Rightarrow> [] | Inr out \<Rightarrow> shape out) = [4, 6, 3]"
proof -
  let ?cfg = "default_config\<lparr>offset := Some 2, margins := 0\<rparr>"
  let ?t = "\<lparr>shape = [6, 1, 2, 2], elems = replicate 8 0 @ map of_nat [0..<16]\<rparr> :: rat tensor"
  let ?out = "\<lparr>shape = [4, 6, 3],
        elems =
          [0, 0, 0, 0, 0, 0, 0, 0, 0, 0, 0, 0, 0, 0, 0, 16, 16, 16, 0, 0, 0,
           0, 0, 0, 0, 0, 0, 0, 0, 0, 33, 33, 33, 50, 50, 50, 67, 67, 67,
           84, 84, 84, 135, 135, 135, 152, 152, 152, 203, 203, 203, 220,
           220, 220, 101, 101, 101, 118, 118, 118, 169, 169, 169, 186, 186,
           186, 237, 237, 237, 254, 254, 254]\<rparr> :: nat tensor"
  have a: "length (shape volume_4x2x2) = 3" by (simp add: volume_4x2x2_def)
  have b: "prepare ?cfg volume_4x2x2 = Inr (?t, 3)" by code_simp
  have c: "draw_grid gray_table volume_4x2x2 ?cfg = Inr ?out" by code_simp
  have d: "effective_depth ?cfg volume_4x2x2 = 6"
    by (simp add: effective_depth_def volume_4x2x2_def)
  have e: "effective_depth ?cfg volume_4x2x2 \<noteq> 1" using d by simp
  have f: "grid_columns ?cfg 6 = 3" by code_simp
  from grid_column_count[OF a b c e] a c d f show ?thesis by simp
qed

subsection \<open>Overlay of an empty mask\<close>

text \<open>
  C4 as stated fails: with background 1 and the default margin, the grid of an all-zero
  mask has its margins filled with 1, so it has foreground; once the contour routines
  report and draw it, the returned image differs from the base grid image.
\<close>

theorem empty_mask_with_background_is_drawn:
  "seg_grid \<lparr>shape = [2, 2, 2], elems = replicate 8 0\<rparr>
       (default_config\<lparr>offset := Some 0, background := 1, color := Brush 255 255 0 255\<rparr>)
     = Inr \<lparr>shape = [4, 7],
            elems = [1, 1, 1, 1, 1, 1, 1,
                     1, 0, 0, 1, 0, 0, 1,
                     1, 0, 0, 1, 0, 0, 1,
                     1, 1, 1, 1, 1, 1, 1]\<rparr>
   \<and> draw_grid_contour cv_marks_foreground \<lparr>shape = [4, 7, 3], elems = replicate 84 0\<rparr>
       \<lparr>shape = [2, 2, 2], elems = replicate 8 0\<rparr>
       (default_config\<lparr>offset := Some 0, background := 1, color := Brush 255 255 0 255\<rparr>)
     = Inr (\<lparr>shape = [4, 7, 3],
             elems =
               [255, 255, 0, 255, 255, 0, 255, 255, 0, 255, 255, 0, 255, 255, 0, 255, 255, 0, 255, 255, 0,
                255, 255, 0, 0, 0, 0, 0, 0, 0, 255, 255, 0, 0, 0, 0, 0, 0, 0, 255, 255, 0,
                255, 255, 0, 0, 0, 0, 0, 0, 0, 255, 255, 0, 0, 0, 0, 0, 0, 0, 255, 255, 0,
                255, 255, 0, 255, 255, 0, 255, 255, 0, 255, 255, 0, 255, 255, 0, 255, 255, 0, 255, 255, 0]\<rparr>,
            [])"
  by code_simp

text \<open>
  C4 (amended): for every base grid image, every all-zero mask volume (of three axes) and
  every configuration with background 0 (any margin width), whenever \<open>draw_grid_contour\<close>
  returns it returns the base grid image unchanged, provided OpenCV draws nothing for a
  mask grid without foreground.
\<close>

theorem empty_mask_leaves_base_unchanged:
  assumes "length (shape seg) = 3" and "wf_tensor seg" and "\<forall>v \<in> set (elems seg). v = 0"
    and "background cfg = 0" and "draws_nothing_on_blank cv"
    and "draw_grid_contour cv im_grid seg cfg = Inr (im', out)"
  shows "im' = im_grid"
proof -
  from assms(6) obtain sg cs where sg: "seg_grid seg cfg = Inr sg"
    and cs: "findContours cv sg = Inr cs"
    and rest: "(case color_rgb (color cfg) of
                  Inl e \<Rightarrow> Inr (im_grid, [e])
                | Inr rgb \<Rightarrow>
                    (case drawContours cv im_grid cs rgb (thickness cfg) of
                       Inl e \<Rightarrow> Inr (im_grid, [e])
                     | Inr im' \<Rightarrow> Inr (im', []))) = Inr (im', out)"
    by (auto simp add: draw_grid_contour_def split: sum.splits)
  have z: "astype_uint8 0 = 0" by (simp add: astype_uint8_def)
  have "\<forall>v \<in> set (elems seg). astype_uint8 v = 0"
    using assms(3) z by auto
  moreover have "astype_uint8 (background cfg) = 0"
    using assms(4) z by simp
  ultimately have b: "blank sg"
    using assms(1,2) sg by (intro seg_grid_blank)
  show ?thesis
  proof (cases "color_rgb (color cfg)")
    case (Inl e)
    with rest show ?thesis by simp
  next
    case (Inr rgb)
    show ?thesis
    proof (cases "drawContours cv im_grid cs rgb (thickness cfg)")
      case (Inl e)
      with rest Inr show ?thesis by simp
    next
      case (Inr im2)
      with rest \<open>color_rgb (color cfg) = Inr rgb\<close> have "im' = im2" by simp
      moreover have "im2 = im_grid"
        using assms(5) b cs Inr unfolding draws_nothing_on_blank_def by blast
      ultimately show ?thesis by simp
    qed
  qed
qed

theorem empty_mask_leaves_base_unchanged_witness:
  "draws_nothing_on_blank cv_no_contours
   \<and> draw_grid_contour cv_no_contours \<lparr>shape = [4, 7, 3], elems = replicate 84 7\<rparr>
        \<lparr>shape = [2, 2, 2], elems = replicate 8 0\<rparr>
        (default_config\<lparr>offset := Some 0, color := Brush 255 255 0 255\<rparr>)
      = Inr (\<lparr>shape = [4, 7, 3], elems = replicate 84 7\<rparr>, [])"
proof -
  let ?seg = "\<lparr>shape = [2, 2, 2], elems = replicate 8 0\<rparr> :: rat tensor"
  let ?cfg = "default_config\<lparr>offset := Some 0, color := Brush 255 255 0 255\<rparr>"
  let ?im = "\<lparr>shape = [4, 7, 3], elems = replicate 84 7\<rparr> :: nat tensor"
  have a: "length (shape ?seg) = 3" by simp
  have b: "wf_tensor ?seg" by (simp add: wf_tensor_def)
  have c: "\<forall>v \<in> set (elems ?seg). v = 0" by simp
  have d: "background ?cfg = 0" by (simp add: default_config_def)
  have e: "draws_nothing_on_blank cv_no_contours"
    by (simp add: draws_nothing_on_blank_def cv_no_contours_def)
  have f: "draw_grid_contour cv_no_contours ?im ?seg ?cfg = Inr (?im, [])"
    by code_simp
  from empty_mask_leaves_base_unchanged[OF a b c d e f] e f show ?thesis by simp
qed

subsection \<open>Normalization\<close>

text \<open>
  C9 as stated fails. A constant volume (all voxels 5) with background 1 gives the byte 0
  in every voxel pixel and 255 in the margins: no pixel has the background value 1. And a
  volume with minimum 0 and maximum 1 maps its maximum to 254, not to 255, because of the
  \<open>1e-5\<close> added to the divisor. (On these two volumes single precision gives the bytes
  of exact arithmetic.)
\<close>

theorem constant_volume_is_not_background:
  "draw_grid gray_table \<lparr>shape = [2, 2, 2], elems = replicate 8 5\<rparr>
        (default_config\<lparr>offset := Some 0, background := 1\<rparr>)
     = Inr \<lparr>shape = [4, 7, 3],
            elems = replicate 21 255
                  @ replicate 3 255 @ replicate 6 0 @ replicate 3 255 @ replicate 6 0 @ replicate 3 255
                  @ replicate 3 255 @ replicate 6 0 @ replicate 3 255 @ replicate 6 0 @ replicate 3 255
                  @ replicate 21 255\<rparr>
   \<and> draw_grid gray_table \<lparr>shape = [2, 2, 2], elems = [0, 1, 0, 1, 0, 1, 0, 1]\<rparr>
        (default_config\<lparr>offset := Some 0, margins := 0\<rparr>)
     = Inr \<lparr>shape = [2, 4, 3],
            elems = [0, 0, 0, 254, 254, 254, 0, 0, 0, 254, 254, 254,
                     0, 0, 0, 254, 254, 254, 0, 0, 0, 254, 254, 254]\<rparr>"
  by code_simp

text \<open>
  C9 (amended): for every volume of three axes with floating-point intensities and every
  configuration with offset 0, no crop and no colour map on which \<open>draw_grid\<close> returns,
  and whatever the rounding of the arithmetic (within \<open>float_arith\<close>): every value of the
  image is an unsigned byte, and it is either the byte of the margin fill (255 times the
  background) or the byte of a voxel \<open>x\<close>, that is \<open>255 (x - min) / (max - min + 1e-5)\<close> as
  the arithmetic computes it, cut to an integer; the byte of every voxel is in the image;
  the minimum and the maximum are intensities of voxels; the minimum has the byte 0; the
  maximum has the byte 254 or 255 when the range \<open>max - min\<close> lies between \<open>0.01\<close> and
  \<open>1e29\<close> (which of the two depends on the rounding: 254 in exact arithmetic, 255 once
  the range absorbs the \<open>1e-5\<close>); and when the volume is constant, every value is 0 or the
  margin byte.
\<close>

theorem normalized_output_bytes:
  assumes "float_arith ar" and "length (shape V) = 3" and "wf_tensor V"
    and "offset cfg = Some 0" and "crop cfg = None"
    and "cmap cfg = None \<or> cmap cfg = Some ''Default''"
    and "draw_grid_float ar lut V cfg = Inr out"
  shows "(\<forall>p \<in> set (elems out). p < 256
            \<and> (p = margin_byte ar cfg \<or> (\<exists>x \<in> set (elems V). p = voxel_byte ar V x)))
       \<and> (\<forall>x \<in> set (elems V). voxel_byte ar V x \<in> set (elems out))
       \<and> tensor_min (elems V) \<in> set (elems V) \<and> tensor_max (elems V) \<in> set (elems V)
       \<and> voxel_byte ar V (tensor_min (elems V)) = 0
       \<and> (1 / 100 \<le> tensor_max (elems V) - tensor_min (elems V)
            \<and> tensor_max (elems V) - tensor_min (elems V) \<le> 10 ^ 29
            \<longrightarrow> voxel_byte ar V (tensor_max (elems V)) = 254
                \<or> voxel_byte ar V (tensor_max (elems V)) = 255)
       \<and> ((\<forall>x \<in> set (elems V). x = tensor_min (elems V))
            \<longrightarrow> (\<forall>p \<in> set (elems out). p = 0 \<or> p = margin_byte ar cfg))"
proof -
  from assms(2) obtain Z W H where sh: "shape V = [Z, W, H]" by (rule length3E)
  note el = draw_grid_float_elems[OF sh assms(3-7)]
  have kinds: "p = margin_byte ar cfg \<or> (\<exists>x \<in> set (elems V). p = voxel_byte ar V x)"
    if "p \<in> set (elems out)" for p
    using el(2) that by auto
  have byte: "p < 256" if "p \<in> set (elems out)" for p
    using kinds[OF that] by (auto simp add: voxel_byte_def margin_byte_def astype_uint8_less)
  have present: "voxel_byte ar V x \<in> set (elems out)" if "x \<in> set (elems V)" for x
    using el(3) that by auto
  note mem = tensor_min_mem[OF el(1)]
  have low: "voxel_byte ar V (tensor_min (elems V)) = 0"
    unfolding voxel_byte_def
    using assms(1) tensor_min_le_max[OF el(1)] by (rule min_byte_float)
  have high: "voxel_byte ar V (tensor_max (elems V)) = 254
        \<or> voxel_byte ar V (tensor_max (elems V)) = 255"
    if "1 / 100 \<le> tensor_max (elems V) - tensor_min (elems V)"
      and "tensor_max (elems V) - tensor_min (elems V) \<le> 10 ^ 29"
    unfolding voxel_byte_def using assms(1) that by (rule max_byte_float)
  have const: "p = 0 \<or> p = margin_byte ar cfg"
    if "\<forall>x \<in> set (elems V). x = tensor_min (elems V)" and "p \<in> set (elems out)" for p
    using kinds[OF that(2)] that(1) low by auto
  from kinds byte present mem low high const show ?thesis by blast
qed

theorem normalized_output_bytes_witness:
  "float_arith absorbing_arith
   \<and> draw_grid_float absorbing_arith gray_table
        \<lparr>shape = [2, 2, 2], elems = [0, 256, 64, 128, 0, 256, 64, 128]\<rparr>
        (default_config\<lparr>offset := Some 0, margins := 0\<rparr>)
     = Inr \<lparr>shape = [2, 4, 3],
            elems = [0, 0, 0, 255, 255, 255, 0, 0, 0, 255, 255, 255,
                     63, 63, 63, 127, 127, 127, 63, 63, 63, 127, 127, 127]\<rparr>
   \<and> voxel_byte absorbing_arith \<lparr>shape = [2, 2, 2], elems = [0, 256, 64, 128, 0, 256, 64, 128]\<rparr> 0 = 0
   \<and> voxel_byte absorbing_arith \<lparr>shape = [2, 2, 2], elems = [0, 256, 64, 128, 0, 256, 64, 128]\<rparr> 256 = 255
   \<and> draw_grid_float exact_arith gray_table \<lparr>shape = [3, 2, 2], elems = replicate 12 3\<rparr>
        (default_config\<lparr>offset := Some 0, background := 1 / 2, margins := 0\<rparr>)
     = Inr \<lparr>shape = [4, 4, 3],
            elems = replicate 24 0 @ replicate 6 0 @ replicate 6 127 @ replicate 6 0 @ replicate 6 127\<rparr>
   \<and> margin_byte exact_arith (default_config\<lparr>offset := Some 0, background := 1 / 2, margins := 0\<rparr>) = 127
   \<and> set (replicate 24 0 @ replicate 6 0 @ replicate 6 127 @ replicate 6 0 @ replicate 6 (127::nat)) = {0, 127}"
proof -
  let ?V = "\<lparr>shape = [2, 2, 2], elems = [0, 256, 64, 128, 0, 256, 64, 128]\<rparr> :: rat tensor"
  let ?cfg = "default_config\<lparr>offset := Some 0, margins := 0\<rparr>"
  let ?out = "\<lparr>shape = [2, 4, 3],
            elems = [0, 0, 0, 255, 255, 255, 0, 0, 0, 255, 255, 255,
                     63, 63, 63, 127, 127, 127, 63, 63, 63, 127, 127, 127]\<rparr> :: nat tensor"
  let ?W = "\<lparr>shape = [3, 2, 2], elems = replicate 12 3\<rparr> :: rat tensor"
  let ?cfg' = "default_config\<lparr>offset := Some 0, background := 1 / 2, margins := 0\<rparr>"
  let ?out' = "\<lparr>shape = [4, 4, 3],
            elems = replicate 24 0 @ replicate 6 0 @ replicate 6 127 @ replicate 6 0 @ replicate 6 127\<rparr> :: nat tensor"
  have fa: "float_arith absorbing_arith" by (rule float_arith_absorbing)
  have a: "length (shape ?V) = 3" by simp
  have b: "wf_tensor ?V" by (simp add: wf_tensor_def)
  have c: "offset ?cfg = Some 0" by simp
  have d: "crop ?cfg = None" by (simp add: default_config_def)
  have e: "cmap ?cfg = None \<or> cmap ?cfg = Some ''Default''" by (simp add: default_config_def)
  have f: "draw_grid_float absorbing_arith gray_table ?V ?cfg = Inr ?out" by code_simp
  have lo: "tensor_min (elems ?V) = 0" by code_simp
  have hi: "tensor_max (elems ?V) = 256" by code_simp
  note t = normalized_output_bytes[OF fa a b c d e f]
  have low: "voxel_byte absorbing_arith ?V 0 = 0" using t lo by simp
  have "voxel_byte absorbing_arith ?V 256 = 254 \<or> voxel_byte absorbing_arith ?V 256 = 255"
    using t lo hi by simp
  moreover have "voxel_byte absorbing_arith ?V 256 \<noteq> 254" by code_simp
  ultimately have high: "voxel_byte absorbing_arith ?V 256 = 255" by simp
  have fe: "float_arith exact_arith" by (rule float_arith_exact)
  have a': "length (shape ?W) = 3" by simp
  have b': "wf_tensor ?W" by (simp add: wf_tensor_def)
  have c': "offset ?cfg' = Some 0" by simp
  have d': "crop ?cfg' = None" by (simp add: default_config_def)
  have e': "cmap ?cfg' = None \<or> cmap ?cfg' = Some ''Default''" by (simp add: default_config_def)
  have f': "draw_grid_float exact_arith gray_table ?W ?cfg' = Inr ?out'" by code_simp
  have m: "tensor_min (elems ?W) = 3" by code_simp
  have k: "\<forall>x \<in> set (elems ?W). x = tensor_min (elems ?W)" unfolding m by simp
  have bg: "margin_byte exact_arith ?cfg' = 127" by code_simp
  have "\<forall>p \<in> set (elems ?out'). p = 0 \<or> p = margin_byte exact_arith ?cfg'"
    using normalized_output_bytes[OF fe a' b' c' d' e' f'] k by blast
  then have "set (elems ?out') = {0, 127}" unfolding bg by auto
  then have s: "set (replicate 24 0 @ replicate 6 0 @ replicate 6 127 @ replicate 6 0
                       @ replicate 6 (127::nat)) = {0, 127}"
    by (simp only: tensor.select_convs)
  from fa f low high f' bg s show ?thesis by blast
qed

subsection \<open>Effects of draw\_grid\_contour\<close>




end
